theory Spec2Isabelle
  imports Main
begin

section \<open>Results of the C++ operations\<close>

text \<open>
  A failed \<^verbatim>\<open>assert\<close> aborts the program; an index outside a \<^verbatim>\<open>std::array\<close>,
  \<^verbatim>\<open>std::vector\<close> or \<^verbatim>\<open>std::string\<close> and a signed overflow are undefined behaviour. All
  three are results of the model. A loop that does not return is the value \<open>None\<close>.

  The 32-bit integers of the source (\<^verbatim>\<open>int32_t\<close>, \<^verbatim>\<open>uint32_t\<close>) are \<open>int\<close> here. The
  leaf counter, which lives as long as the process, is checked against the range of
  \<^verbatim>\<open>int32_t\<close> where it is decremented; positions, lengths and arena sizes are bounded by
  the sizes of one expanded string and are not checked.
\<close>

datatype error = AssertionFailed nat | OutOfRange | SignedOverflow

definition bindE :: "error + 'a \<Rightarrow> ('a \<Rightarrow> error + 'b) \<Rightarrow> error + 'b" where
  "bindE m f = (case m of Inl e \<Rightarrow> Inl e | Inr v \<Rightarrow> f v)"

text \<open>\<open>assert line b\<close> is the \<^verbatim>\<open>assert\<close> at that line of its header file.\<close>

definition assert :: "nat \<Rightarrow> bool \<Rightarrow> error + unit" where
  "assert line b = (if b then Inr () else Inl (AssertionFailed line))"

definition bindO :: "(error + 'a) option \<Rightarrow> ('a \<Rightarrow> (error + 'b) option) \<Rightarrow> (error + 'b) option" where
  "bindO m f = (case m of None \<Rightarrow> None | Some (Inl e) \<Rightarrow> Some (Inl e) | Some (Inr v) \<Rightarrow> f v)"

lemma bindO_mono [partial_function_mono]:
  assumes mf: "mono_option B" and mg: "\<And>y. mono_option (\<lambda>f. C y f)"
  shows "mono_option (\<lambda>f. bindO (B f) (\<lambda>y. C y f))"
proof (rule monotoneI)
  fix f g :: "'a \<Rightarrow> 'b option"
  assume fg: "fun_ord option_ord f g"
  from mf fg have 1: "B f = None \<or> B f = B g"
    unfolding flat_ord_def[symmetric] by (rule monotoneD[of _ _ _ f g])
  from mg have "\<And>y. option_ord (C y f) (C y g)" by (rule monotoneD) (rule fg)
  then have 2: "\<And>y. C y f = None \<or> C y f = C y g"
    unfolding flat_ord_def .
  show "option_ord (bindO (B f) (\<lambda>y. C y f)) (bindO (B g) (\<lambda>y. C y g))"
  proof (cases "B f")
    case None
    then show ?thesis by (simp add: bindO_def flat_ord_def)
  next
    case (Some r)
    with 1 have "B g = Some r" by simp
    with Some 2 show ?thesis
      by (cases r) (simp_all add: bindO_def flat_ord_def)
  qed
qed

section \<open>Alphabet.h\<close>

text \<open>
  The template arguments \<^verbatim>\<open>letters...\<close> are a list of characters. \<^verbatim>\<open>char\<close> is taken as
  signed, as it is on x86: the bytes \<open>0x00..0x7f\<close> index the table of
  \<^verbatim>\<open>max_alphabet_size\<close> entries, and a byte from \<open>0x80\<close> on is a negative index, outside
  the table. \<^verbatim>\<open>operator<<\<close> with such a letter is an out-of-range write during constant
  evaluation, so that an alphabet with a letter from \<open>0x80\<close> on does not compile; the
  table below is the table of the code for the other alphabets.
\<close>

definition max_alphabet_size :: nat where
  "max_alphabet_size = 256"

definition size_alphabet :: "char list \<Rightarrow> int" where
  "size_alphabet letters = int (length letters)"

definition is_exist :: "char list \<Rightarrow> char \<Rightarrow> bool" where
  "is_exist letters c = fold (\<lambda>l exist. exist \<or> c = l) letters False"

record Accumulator =
  acc_indices :: "int list"
  acc_size :: int

text \<open>\<^verbatim>\<open>operator<<\<close>: \<^verbatim>\<open>helper.indices[c] = helper.size++\<close>.\<close>

definition shift_letter :: "Accumulator \<Rightarrow> char \<Rightarrow> Accumulator" where
  "shift_letter helper c =
     \<lparr>acc_indices = (acc_indices helper)[of_char c := acc_size helper],
      acc_size = acc_size helper + 1\<rparr>"

definition indices :: "char list \<Rightarrow> int list" where
  "indices letters =
     acc_indices (fold (\<lambda>c acc. shift_letter acc c) letters
       \<lparr>acc_indices = replicate max_alphabet_size (- 1), acc_size = 0\<rparr>)"

text \<open>The member \<^verbatim>\<open>char_to_index\<close>, read at a byte below \<open>0x80\<close>.\<close>

definition char_to_index :: "char list \<Rightarrow> char \<Rightarrow> int" where
  "char_to_index letters c = indices letters ! of_char c"

text \<open>\<^verbatim>\<open>index_of\<close>: \<^verbatim>\<open>return char_to_index[c]\<close>.\<close>

definition ascii :: "char \<Rightarrow> bool" where
  "ascii c \<longleftrightarrow> (of_char c :: nat) < 128"

definition alphabet_index_of :: "char list \<Rightarrow> char \<Rightarrow> error + int" where
  "alphabet_index_of letters c =
     (if ascii c then Inr (char_to_index letters c) else Inl OutOfRange)"

fun is_alphabet_of :: "char list \<Rightarrow> string \<Rightarrow> error + bool" where
  "is_alphabet_of letters [] = Inr True"
| "is_alphabet_of letters (c # str) =
     bindE (alphabet_index_of letters c) (\<lambda>i.
     if i < 0 then Inr False else is_alphabet_of letters str)"

section \<open>SuffixTree.h: the data\<close>

definition terminal_symbol :: char where
  "terminal_symbol = CHR 0x00"

definition SuffixTreeAlphabet :: "char list \<Rightarrow> char list" where
  "SuffixTreeAlphabet letters = terminal_symbol # letters"

definition EnglishLowercaseLetters :: "char list" where
  "EnglishLowercaseLetters = SuffixTreeAlphabet ''abcdefghijklmnopqrstuvwxyz''"

definition no_connection :: int where
  "no_connection = - 1"

record Node =
  suffix_connection :: int
  edges_to_childs :: "int list"

record Edge =
  start_position :: int
  length_edge :: int
  next_node_addr :: int

record InnerPosition =
  node_addr :: int
  edge_addr :: int
  position :: int

record SuffixTree =
  expanded_string :: string
  root_addr :: int
  node_allocator :: "Node list"
  edge_allocator :: "Edge list"

text \<open>
  \<^verbatim>\<open>Node::Node()\<close> fills the child array with \<^verbatim>\<open>no_connection\<close> and leaves
  \<^verbatim>\<open>suffix_connection\<close> uninitialised; the model stores \<open>- 1\<close> there, the address of no
  inner node, so that following an unset suffix connection is an \<open>OutOfRange\<close> result.
  A new \<^verbatim>\<open>Edge\<close> is value-initialised by \<^verbatim>\<open>emplace_back()\<close>.
\<close>

definition new_Node :: "char list \<Rightarrow> Node" where
  "new_Node A = \<lparr>suffix_connection = - 1,
                 edges_to_childs = replicate (nat (size_alphabet A)) no_connection\<rparr>"

definition new_Edge :: Edge where
  "new_Edge = \<lparr>start_position = 0, length_edge = 0, next_node_addr = 0\<rparr>"

definition allocate_node :: "char list \<Rightarrow> SuffixTree \<Rightarrow> int \<times> SuffixTree" where
  "allocate_node A t =
     (let t' = t\<lparr>node_allocator := node_allocator t @ [new_Node A]\<rparr>
      in (int (length (node_allocator t')) - 1, t'))"

definition allocate_edge :: "SuffixTree \<Rightarrow> int \<times> SuffixTree" where
  "allocate_edge t =
     (let t' = t\<lparr>edge_allocator := edge_allocator t @ [new_Edge]\<rparr>
      in (int (length (edge_allocator t')) - 1, t'))"

text \<open>Reads and writes through \<^verbatim>\<open>get_edge_by\<close>, \<^verbatim>\<open>get_node_by\<close>, the child array and
  the expanded string. \<^verbatim>\<open>std::string::operator[]\<close> at \<^verbatim>\<open>size()\<close> is the null character.\<close>

definition get_edge_by :: "SuffixTree \<Rightarrow> int \<Rightarrow> error + Edge" where
  "get_edge_by t ref =
     (if 0 \<le> ref \<and> ref < int (length (edge_allocator t))
      then Inr (edge_allocator t ! nat ref) else Inl OutOfRange)"

definition set_edge_by :: "SuffixTree \<Rightarrow> int \<Rightarrow> Edge \<Rightarrow> error + SuffixTree" where
  "set_edge_by t ref e =
     (if 0 \<le> ref \<and> ref < int (length (edge_allocator t))
      then Inr (t\<lparr>edge_allocator := (edge_allocator t)[nat ref := e]\<rparr>) else Inl OutOfRange)"

definition get_node_by :: "SuffixTree \<Rightarrow> int \<Rightarrow> error + Node" where
  "get_node_by t ref =
     (if 0 \<le> ref \<and> ref < int (length (node_allocator t))
      then Inr (node_allocator t ! nat ref) else Inl OutOfRange)"

definition set_node_by :: "SuffixTree \<Rightarrow> int \<Rightarrow> Node \<Rightarrow> error + SuffixTree" where
  "set_node_by t ref n =
     (if 0 \<le> ref \<and> ref < int (length (node_allocator t))
      then Inr (t\<lparr>node_allocator := (node_allocator t)[nat ref := n]\<rparr>) else Inl OutOfRange)"

definition child_at :: "Node \<Rightarrow> int \<Rightarrow> error + int" where
  "child_at node i =
     (if 0 \<le> i \<and> i < int (length (edges_to_childs node))
      then Inr (edges_to_childs node ! nat i) else Inl OutOfRange)"

definition set_child_at :: "Node \<Rightarrow> int \<Rightarrow> int \<Rightarrow> error + Node" where
  "set_child_at node i ref =
     (if 0 \<le> i \<and> i < int (length (edges_to_childs node))
      then Inr (node\<lparr>edges_to_childs := (edges_to_childs node)[nat i := ref]\<rparr>)
      else Inl OutOfRange)"

definition char_at :: "SuffixTree \<Rightarrow> int \<Rightarrow> error + char" where
  "char_at t i =
     (if 0 \<le> i \<and> i < int (length (expanded_string t)) then Inr (expanded_string t ! nat i)
      else if i = int (length (expanded_string t)) then Inr (CHR 0x00)
      else Inl OutOfRange)"

definition is_leaf :: "int \<Rightarrow> bool" where
  "is_leaf ref = (ref < 0)"

definition leaf_num_of :: "int \<Rightarrow> error + int" where
  "leaf_num_of ref = bindE (assert 232 (is_leaf ref)) (\<lambda>_. Inr (- ref - 1))"

definition length_to_end_from :: "SuffixTree \<Rightarrow> int \<Rightarrow> int" where
  "length_to_end_from t start_pos = int (length (expanded_string t)) - start_pos"

definition get_dummy :: "SuffixTree \<Rightarrow> error + int" where
  "get_dummy t = bindE (get_node_by t (root_addr t)) (\<lambda>root. Inr (suffix_connection root))"

definition is_dummy :: "SuffixTree \<Rightarrow> int \<Rightarrow> error + bool" where
  "is_dummy t addr =
     bindE (get_node_by t (root_addr t)) (\<lambda>root. Inr (addr = suffix_connection root))"

section \<open>SuffixTree.h: construction\<close>

text \<open>\<^verbatim>\<open>create_dummy_node\<close>: the loop over the child array of the dummy is a recursion
  on the slot index.\<close>

fun dummy_edges :: "nat \<Rightarrow> nat \<Rightarrow> int \<Rightarrow> SuffixTree \<Rightarrow> error + SuffixTree" where
  "dummy_edges 0 i dummy_addr t = Inr t"
| "dummy_edges (Suc n) i dummy_addr t =
     (let (edge_addr, t1) = allocate_edge t in
      bindE (get_node_by t1 dummy_addr) (\<lambda>dummy.
      bindE (set_child_at dummy (int i) edge_addr) (\<lambda>dummy'.
      bindE (set_node_by t1 dummy_addr dummy') (\<lambda>t2.
      bindE (set_edge_by t2 edge_addr
               \<lparr>start_position = - 1, length_edge = 1, next_node_addr = root_addr t2\<rparr>) (\<lambda>t3.
      dummy_edges n (Suc i) dummy_addr t3)))))"

definition create_dummy_node :: "char list \<Rightarrow> SuffixTree \<Rightarrow> error + (int \<times> SuffixTree)" where
  "create_dummy_node A t =
     (let (dummy_addr, t1) = allocate_node A t in
      bindE (get_node_by t1 dummy_addr) (\<lambda>dummy.
      bindE (set_node_by t1 dummy_addr (dummy\<lparr>suffix_connection := dummy_addr\<rparr>)) (\<lambda>t2.
      bindE (dummy_edges (nat (size_alphabet A)) 0 dummy_addr t2) (\<lambda>t3.
      Inr (dummy_addr, t3)))))"

text \<open>
  \<^verbatim>\<open>go_using_suffix_connection\<close>. Line 305 binds \<^verbatim>\<open>source_edge\<close> to
  \<^verbatim>\<open>edge_allocator[iterator.edge_addr]\<close> and line 306 asserts that its
  \<^verbatim>\<open>start_position\<close> is not negative. The third loop of \<^verbatim>\<open>second_stage\<close> calls the
  function with the iterator inside a node, where \<^verbatim>\<open>edge_addr\<close> is \<^verbatim>\<open>no_connection\<close>: the
  assertion then reads in front of the edge arena, and the program does not determine
  what it finds there. That memory is an input of the model: \<open>out t ref\<close> is the
  \<^verbatim>\<open>Edge\<close> that a read at the reference \<open>ref\<close> outside the arena yields when the tree is
  \<open>t\<close>. Every construction makes this read, so it is not made an error of the model:
  the construction goes on exactly when what is read passes the assertion. Every later
  use of \<^verbatim>\<open>source_edge\<close> is a read of the arena.
\<close>

type_synonym outside = "SuffixTree \<Rightarrow> int \<Rightarrow> Edge"

partial_function (option) skip_edges ::
  "char list \<Rightarrow> SuffixTree \<Rightarrow> int \<Rightarrow> int \<Rightarrow> InnerPosition \<Rightarrow> (error + InnerPosition) option" where
  "skip_edges A t source_edge_addr processed_length iterator =
     bindO (Some (get_edge_by t (edge_addr iterator))) (\<lambda>edge.
     if position iterator \<ge> length_edge edge then
       (let iterator1 = iterator\<lparr>node_addr := next_node_addr edge,
                                  position := position iterator - length_edge edge\<rparr>;
            processed_length1 = processed_length + length_edge edge in
        bindO (Some (get_edge_by t source_edge_addr)) (\<lambda>source_edge.
        bindO (Some (assert 336 (processed_length1 \<le> length_edge source_edge))) (\<lambda>_.
        if position iterator1 = 0 then Some (Inr (iterator1\<lparr>edge_addr := no_connection\<rparr>))
        else
          bindO (Some (get_node_by t (node_addr iterator1))) (\<lambda>node.
          bindO (Some (char_at t (start_position source_edge + processed_length1))) (\<lambda>ch.
          bindO (Some (bindE (alphabet_index_of A ch) (child_at node))) (\<lambda>e.
          bindO (Some (assert 352 (e \<noteq> - 1))) (\<lambda>_.
          skip_edges A t source_edge_addr processed_length1 (iterator1\<lparr>edge_addr := e\<rparr>))))))))
     else Some (Inr iterator))"

definition go_using_suffix_connection ::
  "outside \<Rightarrow> char list \<Rightarrow> SuffixTree \<Rightarrow> InnerPosition \<Rightarrow> (error + InnerPosition) option" where
  "go_using_suffix_connection out A t iterator =
     (let source_edge_addr = edge_addr iterator in
      bindO (Some (assert 306
                (start_position (case get_edge_by t source_edge_addr of
                                   Inl _ \<Rightarrow> out t source_edge_addr
                                 | Inr source_edge \<Rightarrow> source_edge) \<ge> 0))) (\<lambda>_.
      bindO (Some (get_node_by t (node_addr iterator))) (\<lambda>from_node.
      let iterator1 = iterator\<lparr>node_addr := suffix_connection from_node\<rparr> in
      if position iterator1 = 0 then Some (Inr (iterator1\<lparr>edge_addr := no_connection\<rparr>))
      else
        bindO (Some (get_node_by t (node_addr iterator1))) (\<lambda>node.
        bindO (Some (get_edge_by t source_edge_addr)) (\<lambda>source_edge.
        bindO (Some (char_at t (start_position source_edge))) (\<lambda>ch.
        bindO (Some (bindE (alphabet_index_of A ch) (child_at node))) (\<lambda>e.
        bindO (Some (assert 322 (e \<noteq> - 1))) (\<lambda>_.
        skip_edges A t source_edge_addr 0 (iterator1\<lparr>edge_addr := e\<rparr>)))))))))"

declare skip_edges.simps [code]

definition is_position_in_node_without_path ::
  "char list \<Rightarrow> SuffixTree \<Rightarrow> int \<Rightarrow> InnerPosition \<Rightarrow> error + bool" where
  "is_position_in_node_without_path A t new_ch_pos iterator =
     bindE (char_at t new_ch_pos) (\<lambda>ch.
     if position iterator = 0 then
       bindE (get_node_by t (node_addr iterator)) (\<lambda>node.
       bindE (bindE (alphabet_index_of A ch) (child_at node)) (\<lambda>e.
       Inr (e = no_connection)))
     else Inr False)"

definition is_position_in_edge_without_path ::
  "SuffixTree \<Rightarrow> int \<Rightarrow> InnerPosition \<Rightarrow> error + bool" where
  "is_position_in_edge_without_path t new_ch_pos iterator =
     (if position iterator = 0 then Inr False
      else
        bindE (assert 381 (new_ch_pos > 0)) (\<lambda>_.
        bindE (get_edge_by t (edge_addr iterator)) (\<lambda>edge.
        bindE (assert 385 (start_position edge \<ge> 0)) (\<lambda>_.
        bindE (assert 388 (position iterator < length_edge edge)) (\<lambda>_.
        bindE (char_at t (new_ch_pos - 1)) (\<lambda>prev.
        bindE (char_at t (start_position edge + position iterator - 1)) (\<lambda>prev_on_edge.
        bindE (assert 389 (prev = prev_on_edge)) (\<lambda>_.
        bindE (char_at t new_ch_pos) (\<lambda>ch.
        bindE (char_at t (start_position edge + position iterator)) (\<lambda>next_on_edge.
        Inr (next_on_edge \<noteq> ch)))))))))))"

definition add_node_in ::
  "char list \<Rightarrow> SuffixTree \<Rightarrow> InnerPosition \<Rightarrow> error + (int \<times> SuffixTree)" where
  "add_node_in A t iterator =
     (let (new_edge_addr, t1) = allocate_edge t;
          (new_node_addr, t2) = allocate_node A t1 in
      bindE (get_edge_by t2 (edge_addr iterator)) (\<lambda>edge.
      bindE (assert 407 (start_position edge \<ge> 0)) (\<lambda>_.
      bindE (assert 410 (position iterator > 0)) (\<lambda>_.
      bindE (assert 411 (position iterator < length_edge edge)) (\<lambda>_.
      let ch_pos = start_position edge + position iterator in
      bindE (char_at t2 ch_pos) (\<lambda>ch.
      bindE (set_edge_by t2 new_edge_addr
               \<lparr>start_position = ch_pos,
                length_edge = length_edge edge - position iterator,
                next_node_addr = next_node_addr edge\<rparr>) (\<lambda>t3.
      bindE (get_node_by t3 new_node_addr) (\<lambda>new_node.
      bindE (bindE (alphabet_index_of A ch) (\<lambda>i. set_child_at new_node i new_edge_addr)) (\<lambda>new_node'.
      bindE (set_node_by t3 new_node_addr new_node') (\<lambda>t4.
      bindE (get_edge_by t4 (edge_addr iterator)) (\<lambda>edge'.
      bindE (set_edge_by t4 (edge_addr iterator)
               (edge'\<lparr>length_edge := position iterator,
                      next_node_addr := new_node_addr\<rparr>)) (\<lambda>t5.
      Inr (new_node_addr, t5)))))))))))))"

text \<open>The function-local \<^verbatim>\<open>static\<close> counter \<^verbatim>\<open>leaf_addr_allocator\<close> belongs to the
  process, not to a tree: it is passed in and handed back beside the tree. It is an
  \<^verbatim>\<open>int32_t\<close>, and \<^verbatim>\<open>--leaf_addr_allocator\<close> below its least value is a signed overflow.\<close>

definition create_new_edge_to_leaf_from_node ::
  "char list \<Rightarrow> SuffixTree \<times> int \<Rightarrow> int \<Rightarrow> int \<Rightarrow> error + (SuffixTree \<times> int)" where
  "create_new_edge_to_leaf_from_node A tc new_ch_pos addr =
     (let (t, leaf_addr_allocator) = tc in
      bindE (if leaf_addr_allocator - 1 < - 2147483648 then Inl SignedOverflow
             else Inr (leaf_addr_allocator - 1)) (\<lambda>new_leaf_addr.
      bindE (get_node_by t addr) (\<lambda>node.
      bindE (char_at t new_ch_pos) (\<lambda>ch.
      bindE (bindE (alphabet_index_of A ch) (child_at node)) (\<lambda>e.
      bindE (assert 447 (e = no_connection)) (\<lambda>_.
      let (edge_addr, t1) = allocate_edge t in
      bindE (set_edge_by t1 edge_addr
               \<lparr>start_position = new_ch_pos,
                length_edge = length_to_end_from t1 new_ch_pos,
                next_node_addr = new_leaf_addr\<rparr>) (\<lambda>t2.
      bindE (get_node_by t2 addr) (\<lambda>node'.
      bindE (bindE (alphabet_index_of A ch) (\<lambda>i. set_child_at node' i edge_addr)) (\<lambda>node''.
      bindE (set_node_by t2 addr node'') (\<lambda>t3.
      Inr (t3, new_leaf_addr)))))))))))"

definition set_suffix_connection :: "SuffixTree \<Rightarrow> int \<Rightarrow> int \<Rightarrow> error + SuffixTree" where
  "set_suffix_connection t addr target =
     bindE (get_node_by t addr) (\<lambda>node.
     set_node_by t addr (node\<lparr>suffix_connection := target\<rparr>))"

partial_function (option) second_stage_edges ::
  "outside \<Rightarrow> char list \<Rightarrow> int \<Rightarrow> int \<Rightarrow> (SuffixTree \<times> int) \<times> InnerPosition
     \<Rightarrow> (error + (int \<times> (SuffixTree \<times> int) \<times> InnerPosition)) option" where
  "second_stage_edges out A new_ch_pos last_node_addr st =
     (let ((t, lc), iterator) = st in
      bindO (Some (is_position_in_edge_without_path t new_ch_pos iterator)) (\<lambda>b.
      if b then
        bindO (Some (add_node_in A t iterator)) (\<lambda>(new_node_addr, t1).
        bindO (Some (set_suffix_connection t1 last_node_addr new_node_addr)) (\<lambda>t2.
        bindO (Some (create_new_edge_to_leaf_from_node A (t2, lc) new_ch_pos new_node_addr)) (\<lambda>tc3.
        bindO (go_using_suffix_connection out A (fst tc3) iterator) (\<lambda>iterator'.
        second_stage_edges out A new_ch_pos new_node_addr (tc3, iterator')))))
      else Some (Inr (last_node_addr, st))))"

partial_function (option) second_stage_nodes ::
  "outside \<Rightarrow> char list \<Rightarrow> int \<Rightarrow> (SuffixTree \<times> int) \<times> InnerPosition
     \<Rightarrow> (error + ((SuffixTree \<times> int) \<times> InnerPosition)) option" where
  "second_stage_nodes out A new_ch_pos st =
     (let ((t, lc), iterator) = st in
      bindO (Some (is_position_in_node_without_path A t new_ch_pos iterator)) (\<lambda>b.
      if b then
        bindO (Some (create_new_edge_to_leaf_from_node A (t, lc) new_ch_pos (node_addr iterator))) (\<lambda>tc1.
        bindO (go_using_suffix_connection out A (fst tc1) iterator) (\<lambda>iterator'.
        second_stage_nodes out A new_ch_pos (tc1, iterator')))
      else Some (Inr st)))"

declare second_stage_edges.simps [code]

declare second_stage_nodes.simps [code]

definition second_stage ::
  "outside \<Rightarrow> char list \<Rightarrow> int \<Rightarrow> (SuffixTree \<times> int) \<times> InnerPosition
     \<Rightarrow> (error + ((SuffixTree \<times> int) \<times> InnerPosition)) option" where
  "second_stage out A new_ch_pos st =
     (let ((t, lc), iterator) = st in
      bindO (Some (get_dummy t)) (\<lambda>last_node_addr.
      bindO (Some (is_position_in_edge_without_path t new_ch_pos iterator)) (\<lambda>b.
      bindO (if b then
               bindO (Some (add_node_in A t iterator)) (\<lambda>(last_node_addr1, t1).
               bindO (Some (create_new_edge_to_leaf_from_node A (t1, lc) new_ch_pos last_node_addr1)) (\<lambda>tc2.
               bindO (go_using_suffix_connection out A (fst tc2) iterator) (\<lambda>iterator'.
               Some (Inr (last_node_addr1, tc2, iterator')))))
             else Some (Inr (last_node_addr, st))) (\<lambda>(last_node_addr2, st2).
      bindO (second_stage_edges out A new_ch_pos last_node_addr2 st2) (\<lambda>(last_node_addr3, (t3, lc3), iterator3).
      bindO (Some (set_suffix_connection t3 last_node_addr3 (node_addr iterator3))) (\<lambda>t4.
      second_stage_nodes out A new_ch_pos ((t4, lc3), iterator3)))))))"

definition go_over_one_letter_next ::
  "char list \<Rightarrow> SuffixTree \<Rightarrow> char \<Rightarrow> InnerPosition \<Rightarrow> error + InnerPosition" where
  "go_over_one_letter_next A t ch iterator =
     bindE (if position iterator = 0 then
              bindE (get_node_by t (node_addr iterator)) (\<lambda>node.
              bindE (bindE (alphabet_index_of A ch) (child_at node)) (\<lambda>e.
              bindE (assert 511 (e \<noteq> no_connection)) (\<lambda>_.
              Inr (iterator\<lparr>edge_addr := e\<rparr>))))
            else Inr iterator) (\<lambda>iterator1.
     bindE (get_edge_by t (edge_addr iterator1)) (\<lambda>edge.
     bindE (is_dummy t (node_addr iterator1)) (\<lambda>d.
     bindE (if d then Inr ()
            else bindE (char_at t (start_position edge + position iterator1)) (\<lambda>c.
                 assert 515 (c = ch))) (\<lambda>_.
     let iterator2 = iterator1\<lparr>position := position iterator1 + 1\<rparr> in
     if position iterator2 = length_edge edge
     then Inr (iterator2\<lparr>node_addr := next_node_addr edge, edge_addr := - 1, position := 0\<rparr>)
     else Inr iterator2))))"

definition third_stage ::
  "char list \<Rightarrow> SuffixTree \<Rightarrow> int \<Rightarrow> InnerPosition \<Rightarrow> error + InnerPosition" where
  "third_stage A t new_ch_pos iterator =
     bindE (char_at t new_ch_pos) (\<lambda>ch. go_over_one_letter_next A t ch iterator)"

text \<open>The \<^verbatim>\<open>for\<close> loop of \<^verbatim>\<open>construct_tree\<close>: \<open>n\<close> positions are left, the next one is
  \<open>pos\<close>. \<^verbatim>\<open>first_stage\<close> does nothing.\<close>

fun construct_loop ::
  "outside \<Rightarrow> char list \<Rightarrow> nat \<Rightarrow> int \<Rightarrow> (SuffixTree \<times> int) \<times> InnerPosition
     \<Rightarrow> (error + ((SuffixTree \<times> int) \<times> InnerPosition)) option" where
  "construct_loop out A 0 pos st = Some (Inr st)"
| "construct_loop out A (Suc n) pos st =
     bindO (second_stage out A pos st) (\<lambda>(tc1, iterator1).
     bindO (Some (third_stage A (fst tc1) pos iterator1)) (\<lambda>iterator2.
     construct_loop out A n (pos + 1) (tc1, iterator2)))"

definition construct_tree :: "outside \<Rightarrow> char list \<Rightarrow> SuffixTree \<times> int \<Rightarrow> (error + (SuffixTree \<times> int)) option" where
  "construct_tree out A tc =
     (let iterator = \<lparr>node_addr = root_addr (fst tc), edge_addr = no_connection, position = 0\<rparr> in
      bindO (construct_loop out A (length (expanded_string (fst tc))) 0 (tc, iterator)) (\<lambda>(tc', _).
      Some (Inr tc')))"

text \<open>The constructor \<^verbatim>\<open>SuffixTree(source)\<close> for the alphabet \<open>A\<close>, run when the
  process-wide leaf counter holds \<open>lc\<close>; it returns the tree and the counter.\<close>

definition build :: "outside \<Rightarrow> char list \<Rightarrow> int \<Rightarrow> string \<Rightarrow> (error + (SuffixTree \<times> int)) option" where
  "build out A lc source =
     (let t0 = \<lparr>expanded_string = source @ [terminal_symbol], root_addr = 0,
                node_allocator = [], edge_allocator = []\<rparr> in
      bindO (Some (bindE (is_alphabet_of A (expanded_string t0)) (assert 286))) (\<lambda>_.
      let (r, t1) = allocate_node A t0;
          t2 = t1\<lparr>root_addr := r\<rparr> in
      bindO (Some (create_dummy_node A t2)) (\<lambda>(dummy_addr, t3).
      bindO (Some (set_suffix_connection t3 (root_addr t3) dummy_addr)) (\<lambda>t4.
      construct_tree out A (t4, lc)))))"

section \<open>SuffixTree.h: queries\<close>

text \<open>The loop of \<^verbatim>\<open>index_of\<close> over the pattern; \<open>None\<close> is the early \<^verbatim>\<open>return -1\<close>,
  otherwise the iterator and \<^verbatim>\<open>last_edge_addr\<close> after the last character.\<close>

fun index_of_loop ::
  "char list \<Rightarrow> SuffixTree \<Rightarrow> InnerPosition \<Rightarrow> int \<Rightarrow> string
     \<Rightarrow> error + (InnerPosition \<times> int) option" where
  "index_of_loop A t iterator last_edge_addr [] = Inr (Some (iterator, last_edge_addr))"
| "index_of_loop A t iterator last_edge_addr (ch # pattern) =
     bindE (if edge_addr iterator = no_connection then
              bindE (get_node_by t (node_addr iterator)) (\<lambda>node.
              bindE (bindE (alphabet_index_of A ch) (child_at node)) (\<lambda>e.
              Inr (iterator\<lparr>edge_addr := e\<rparr>)))
            else Inr iterator) (\<lambda>iterator1.
     if edge_addr iterator1 = no_connection then Inr None
     else
       bindE (get_edge_by t (edge_addr iterator1)) (\<lambda>edge.
       bindE (char_at t (start_position edge + position iterator1)) (\<lambda>c.
       if c \<noteq> ch then Inr None
       else
         (let iterator2 = iterator1\<lparr>position := position iterator1 + 1\<rparr> in
          if length_edge edge = position iterator2 then
            (let last_edge_addr1 = edge_addr iterator2;
                 iterator3 = iterator2\<lparr>node_addr := next_node_addr edge,
                                       edge_addr := no_connection, position := 0\<rparr> in
             bindE (assert 594 (\<not> is_leaf (node_addr iterator3))) (\<lambda>_.
             index_of_loop A t iterator3 last_edge_addr1 pattern))
          else index_of_loop A t iterator2 last_edge_addr pattern))))"

definition index_of :: "char list \<Rightarrow> SuffixTree \<Rightarrow> string \<Rightarrow> error + int" where
  "index_of A t pattern =
     (let iterator = \<lparr>node_addr = root_addr t, edge_addr = no_connection, position = 0\<rparr> in
      if length pattern = 0 then Inr 0
      else
        bindE (get_dummy t) (\<lambda>dummy_addr.
        bindE (get_node_by t dummy_addr) (\<lambda>dummy.
        bindE (child_at dummy 0) (\<lambda>last_edge_addr.
        bindE (index_of_loop A t iterator last_edge_addr pattern) (\<lambda>r.
        case r of
          None \<Rightarrow> Inr (- 1)
        | Some (iterator', last_edge_addr') \<Rightarrow>
            bindE (if edge_addr iterator' = no_connection then
                     bindE (get_edge_by t last_edge_addr') (\<lambda>e.
                     Inr (last_edge_addr', length_edge e))
                   else Inr (edge_addr iterator', position iterator')) (\<lambda>(edge_addr', edge_position).
            bindE (get_edge_by t edge_addr') (\<lambda>edge.
            let position' = start_position edge + edge_position - int (length pattern) in
            bindE (assert 611 (position' \<ge> 0)) (\<lambda>_.
            Inr position'))))))))"

definition contains :: "char list \<Rightarrow> SuffixTree \<Rightarrow> string \<Rightarrow> error + bool" where
  "contains A t pattern = bindE (index_of A t pattern) (\<lambda>p. Inr (p \<noteq> - 1))"

text \<open>The program of \<^verbatim>\<open>main.cpp\<close>: a tree is built from \<open>source\<close> in a fresh process
  (leaf counter \<open>0\<close>) and then queried.\<close>

definition main_index_of :: "outside \<Rightarrow> char list \<Rightarrow> string \<Rightarrow> string \<Rightarrow> (error + int) option" where
  "main_index_of out A source pattern =
     bindO (build out A 0 source) (\<lambda>(t, _). Some (index_of A t pattern))"

definition main_contains :: "outside \<Rightarrow> char list \<Rightarrow> string \<Rightarrow> string \<Rightarrow> (error + bool) option" where
  "main_contains out A source pattern =
     bindO (build out A 0 source) (\<lambda>(t, _). Some (contains A t pattern))"

section \<open>SuffixTree.h: the queries as member functions\<close>

text \<open>
  A member function receives the object and leaves it behind. Here the bodies of
  \<^verbatim>\<open>index_of\<close> and \<^verbatim>\<open>contains\<close> are written statement by statement as transformers of
  the tree, the way a function that wrote to the arenas would be. \<open>fetch f\<close> is a read
  of the object (\<^verbatim>\<open>root_addr\<close>, \<^verbatim>\<open>get_node_by\<close>, \<^verbatim>\<open>get_edge_by\<close>, \<^verbatim>\<open>expanded_string[i]\<close>);
  \<open>local r\<close> is a step on the local variables \<^verbatim>\<open>iterator\<close>, \<^verbatim>\<open>last_edge_addr\<close>,
  \<^verbatim>\<open>edge_addr\<close>, \<^verbatim>\<open>edge_position\<close> and \<^verbatim>\<open>position\<close> or on a node or edge that has been
  read; \<open>store f\<close> is a write to the object, as the member functions of the construction
  make through the references that \<^verbatim>\<open>get_node_by\<close> and \<^verbatim>\<open>get_edge_by\<close> return. The bodies
  of the two queries contain reads and local steps and no write.
\<close>

type_synonym 'a query = "SuffixTree \<Rightarrow> (error + 'a) \<times> SuffixTree"

definition fetch :: "(SuffixTree \<Rightarrow> error + 'a) \<Rightarrow> 'a query" where
  "fetch f t = (f t, t)"

definition store :: "(SuffixTree \<Rightarrow> error + SuffixTree) \<Rightarrow> unit query" where
  "store f t = (case f t of Inl e \<Rightarrow> (Inl e, t) | Inr t' \<Rightarrow> (Inr (), t'))"

definition local :: "error + 'a \<Rightarrow> 'a query" where
  "local r t = (r, t)"

definition bind_m :: "'a query \<Rightarrow> ('a \<Rightarrow> 'b query) \<Rightarrow> 'b query" where
  "bind_m m f t = (case m t of (Inl e, t') \<Rightarrow> (Inl e, t') | (Inr x, t') \<Rightarrow> f x t')"

fun index_of_loop_method ::
  "char list \<Rightarrow> InnerPosition \<Rightarrow> int \<Rightarrow> string \<Rightarrow> ((InnerPosition \<times> int) option) query" where
  "index_of_loop_method A iterator last_edge_addr [] t =
     local (Inr (Some (iterator, last_edge_addr))) t"
| "index_of_loop_method A iterator last_edge_addr (ch # pattern) t =
     bind_m (if edge_addr iterator = no_connection then
               bind_m (fetch (\<lambda>t. get_node_by t (node_addr iterator))) (\<lambda>node.
               bind_m (local (bindE (alphabet_index_of A ch) (child_at node))) (\<lambda>e.
               local (Inr (iterator\<lparr>edge_addr := e\<rparr>))))
             else local (Inr iterator)) (\<lambda>iterator1.
     if edge_addr iterator1 = no_connection then local (Inr None)
     else
       bind_m (fetch (\<lambda>t. get_edge_by t (edge_addr iterator1))) (\<lambda>edge.
       bind_m (fetch (\<lambda>t. char_at t (start_position edge + position iterator1))) (\<lambda>c.
       if c \<noteq> ch then local (Inr None)
       else
         (let iterator2 = iterator1\<lparr>position := position iterator1 + 1\<rparr> in
          if length_edge edge = position iterator2 then
            (let last_edge_addr1 = edge_addr iterator2;
                 iterator3 = iterator2\<lparr>node_addr := next_node_addr edge,
                                       edge_addr := no_connection, position := 0\<rparr> in
             bind_m (local (assert 594 (\<not> is_leaf (node_addr iterator3)))) (\<lambda>_.
             index_of_loop_method A iterator3 last_edge_addr1 pattern))
          else index_of_loop_method A iterator2 last_edge_addr pattern)))) t"

definition index_of_method :: "char list \<Rightarrow> string \<Rightarrow> int query" where
  "index_of_method A pattern =
     bind_m (fetch (\<lambda>t. Inr (root_addr t))) (\<lambda>root.
     let iterator = \<lparr>node_addr = root, edge_addr = no_connection, position = 0\<rparr> in
     if length pattern = 0 then local (Inr 0)
     else
       bind_m (fetch get_dummy) (\<lambda>dummy_addr.
       bind_m (fetch (\<lambda>t. get_node_by t dummy_addr)) (\<lambda>dummy.
       bind_m (local (child_at dummy 0)) (\<lambda>last_edge_addr.
       bind_m (index_of_loop_method A iterator last_edge_addr pattern) (\<lambda>r.
       case r of
         None \<Rightarrow> local (Inr (- 1))
       | Some (iterator', last_edge_addr') \<Rightarrow>
           bind_m (if edge_addr iterator' = no_connection then
                     bind_m (fetch (\<lambda>t. get_edge_by t last_edge_addr')) (\<lambda>e.
                     local (Inr (last_edge_addr', length_edge e)))
                   else local (Inr (edge_addr iterator', position iterator')))
             (\<lambda>(edge_addr', edge_position).
           bind_m (fetch (\<lambda>t. get_edge_by t edge_addr')) (\<lambda>edge.
           let position' = start_position edge + edge_position - int (length pattern) in
           bind_m (local (assert 611 (position' \<ge> 0))) (\<lambda>_.
           local (Inr position')))))))))"

definition contains_method :: "char list \<Rightarrow> string \<Rightarrow> bool query" where
  "contains_method A pattern =
     bind_m (index_of_method A pattern) (\<lambda>p. local (Inr (p \<noteq> - 1)))"

definition is_built :: "(error + (SuffixTree \<times> int)) option \<Rightarrow> bool" where
  "is_built r = (case r of Some (Inr _) \<Rightarrow> True | _ \<Rightarrow> False)"

section \<open>The alphabet table\<close>

lemma fold_shift_letter_snoc:
  "fold (\<lambda>c acc. shift_letter acc c) (xs @ [x]) a =
   shift_letter (fold (\<lambda>c acc. shift_letter acc c) xs a) x"
  by simp

lemma fold_shift_letter_props:
  fixes a :: Accumulator
  assumes "length (acc_indices a) = 256" and "\<forall>i<256. acc_indices a ! i = - 1" and "acc_size a = 0"
  defines "r \<equiv> \<lambda>xs. fold (\<lambda>c acc. shift_letter acc c) xs a"
  shows "length (acc_indices (r xs)) = 256 \<and> acc_size (r xs) = int (length xs) \<and>
    (\<forall>c. c \<notin> set xs \<longrightarrow> acc_indices (r xs) ! of_char c = - 1) \<and>
    (\<forall>c \<in> set xs. 0 \<le> acc_indices (r xs) ! of_char c \<and> acc_indices (r xs) ! of_char c < int (length xs)) \<and>
    (\<forall>c \<in> set xs. \<forall>c' \<in> set xs.
        acc_indices (r xs) ! of_char c = acc_indices (r xs) ! of_char c' \<longrightarrow> c = c')"
proof (induction xs rule: rev_induct)
  case Nil
  have "\<And>c::char. (of_char c :: nat) < 256" by simp
  with assms show ?case by (simp add: r_def)
next
  case (snoc x xs)
  have lt: "\<And>c::char. (of_char c :: nat) < 256" by simp
  have step: "r (xs @ [x]) = shift_letter (r xs) x"
    by (simp add: r_def)
  have len: "length (acc_indices (r xs)) = 256" using snoc.IH by simp
  have sz: "acc_size (r xs) = int (length xs)" using snoc.IH by simp
  have tbl: "acc_indices (r (xs @ [x])) = (acc_indices (r xs))[of_char x := int (length xs)]"
    by (simp add: step shift_letter_def sz)
  have at_x: "acc_indices (r (xs @ [x])) ! of_char x = int (length xs)"
    by (simp add: tbl len lt)
  have at_other: "\<And>c. c \<noteq> x \<Longrightarrow> acc_indices (r (xs @ [x])) ! of_char c = acc_indices (r xs) ! of_char c"
    by (simp add: tbl)
  have old_lt: "\<And>c. c \<in> set xs \<Longrightarrow> acc_indices (r xs) ! of_char c < int (length xs)"
    using snoc.IH by blast
  have old_ge: "\<And>c. c \<in> set xs \<Longrightarrow> 0 \<le> acc_indices (r xs) ! of_char c"
    using snoc.IH by blast
  have old_out: "\<And>c. c \<notin> set xs \<Longrightarrow> acc_indices (r xs) ! of_char c = - 1"
    using snoc.IH by blast
  have old_inj: "\<And>c c'. c \<in> set xs \<Longrightarrow> c' \<in> set xs \<Longrightarrow>
      acc_indices (r xs) ! of_char c = acc_indices (r xs) ! of_char c' \<Longrightarrow> c = c'"
    using snoc.IH by blast
  have 1: "length (acc_indices (r (xs @ [x]))) = 256" by (simp add: tbl len)
  have 2: "acc_size (r (xs @ [x])) = int (length (xs @ [x]))"
    by (simp add: step shift_letter_def sz)
  have 3: "\<forall>c. c \<notin> set (xs @ [x]) \<longrightarrow> acc_indices (r (xs @ [x])) ! of_char c = - 1"
    using at_other old_out by auto
  have 4: "\<forall>c \<in> set (xs @ [x]). 0 \<le> acc_indices (r (xs @ [x])) ! of_char c \<and>
             acc_indices (r (xs @ [x])) ! of_char c < int (length (xs @ [x]))"
  proof
    fix c assume "c \<in> set (xs @ [x])"
    show "0 \<le> acc_indices (r (xs @ [x])) ! of_char c \<and>
             acc_indices (r (xs @ [x])) ! of_char c < int (length (xs @ [x]))"
    proof (cases "c = x")
      case True
      then show ?thesis using at_x by simp
    next
      case False
      with \<open>c \<in> set (xs @ [x])\<close> have "c \<in> set xs" by simp
      with False at_other[of c] old_lt[of c] old_ge[of c] show ?thesis by simp
    qed
  qed
  have 5: "\<forall>c \<in> set (xs @ [x]). \<forall>c' \<in> set (xs @ [x]).
        acc_indices (r (xs @ [x])) ! of_char c = acc_indices (r (xs @ [x])) ! of_char c' \<longrightarrow> c = c'"
  proof (intro ballI impI)
    fix c c' assume c: "c \<in> set (xs @ [x])" and c': "c' \<in> set (xs @ [x])"
      and eq: "acc_indices (r (xs @ [x])) ! of_char c = acc_indices (r (xs @ [x])) ! of_char c'"
    show "c = c'"
    proof (cases "c = x")
      case True
      show ?thesis
      proof (cases "c' = x")
        case True
        with \<open>c = x\<close> show ?thesis by simp
      next
        case False
        with c' have "c' \<in> set xs" by simp
        with False eq True at_x at_other[of c'] old_lt[of c'] show ?thesis by simp
      qed
    next
      case False
      with c have cx: "c \<in> set xs" by simp
      show ?thesis
      proof (cases "c' = x")
        case True
        with False eq at_x at_other[of c] old_lt[of c] cx show ?thesis by simp
      next
        case c'x: False
        with c' have "c' \<in> set xs" by simp
        with cx False c'x eq at_other[of c] at_other[of c'] old_inj[of c c'] show ?thesis by simp
      qed
    qed
  qed
  from 1 2 3 4 5 show ?case by blast
qed

lemma char_to_index_notin:
  "c \<notin> set A \<Longrightarrow> char_to_index A c = - 1"
  using fold_shift_letter_props[of "\<lparr>acc_indices = replicate max_alphabet_size (- 1), acc_size = 0\<rparr>" A]
  by (simp add: char_to_index_def indices_def max_alphabet_size_def)

lemma char_to_index_in:
  "c \<in> set A \<Longrightarrow> 0 \<le> char_to_index A c \<and> char_to_index A c < size_alphabet A"
  using fold_shift_letter_props[of "\<lparr>acc_indices = replicate max_alphabet_size (- 1), acc_size = 0\<rparr>" A]
  by (simp add: char_to_index_def indices_def max_alphabet_size_def size_alphabet_def)


lemma char_to_index_nonneg_iff:
  "0 \<le> char_to_index A c \<longleftrightarrow> c \<in> set A"
proof (cases "c \<in> set A")
  case True
  then show ?thesis using char_to_index_in by blast
next
  case False
  then show ?thesis by (simp add: char_to_index_notin)
qed

lemma alphabet_index_of_Inr_iff:
  "alphabet_index_of A c = Inr i \<longleftrightarrow> ascii c \<and> i = char_to_index A c"
  by (auto simp: alphabet_index_of_def)

lemma alphabet_index_of_ok: "ascii c \<Longrightarrow> alphabet_index_of A c = Inr (char_to_index A c)"
  by (simp add: alphabet_index_of_def)


section \<open>Reading the arenas\<close>

text \<open>The fields of the arena elements at a reference, and the explicit trees that the
  three mutating operations produce when they succeed.\<close>

definition edge_ok :: "SuffixTree \<Rightarrow> int \<Rightarrow> bool" where
  "edge_ok t r \<longleftrightarrow> 0 \<le> r \<and> r < int (length (edge_allocator t))"

definition node_ok :: "SuffixTree \<Rightarrow> int \<Rightarrow> bool" where
  "node_ok t r \<longleftrightarrow> 0 \<le> r \<and> r < int (length (node_allocator t))"

definition ed :: "SuffixTree \<Rightarrow> int \<Rightarrow> Edge" where
  "ed t r = edge_allocator t ! nat r"

definition nd :: "SuffixTree \<Rightarrow> int \<Rightarrow> Node" where
  "nd t r = node_allocator t ! nat r"

definition slot_ok :: "Node \<Rightarrow> int \<Rightarrow> bool" where
  "slot_ok n i \<longleftrightarrow> 0 \<le> i \<and> i < int (length (edges_to_childs n))"

definition kid :: "SuffixTree \<Rightarrow> int \<Rightarrow> int \<Rightarrow> int" where
  "kid t u i = edges_to_childs (nd t u) ! nat i"

definition chr_ok :: "SuffixTree \<Rightarrow> int \<Rightarrow> bool" where
  "chr_ok t i \<longleftrightarrow> 0 \<le> i \<and> i \<le> int (length (expanded_string t))"

definition chr :: "SuffixTree \<Rightarrow> int \<Rightarrow> char" where
  "chr t i = (if i = int (length (expanded_string t)) then CHR 0x00 else expanded_string t ! nat i)"

lemma bindE_Inr_iff: "bindE m f = Inr y \<longleftrightarrow> (\<exists>x. m = Inr x \<and> f x = Inr y)"
  by (cases m) (simp_all add: bindE_def)

lemma assert_Inr_iff: "assert l b = Inr u \<longleftrightarrow> b"
  by (simp add: assert_def)




lemma get_edge_by_Inr_iff: "get_edge_by t r = Inr e \<longleftrightarrow> edge_ok t r \<and> e = ed t r"
  by (auto simp: get_edge_by_def edge_ok_def ed_def)

lemma get_node_by_Inr_iff: "get_node_by t r = Inr n \<longleftrightarrow> node_ok t r \<and> n = nd t r"
  by (auto simp: get_node_by_def node_ok_def nd_def)

lemma set_edge_by_Inr_iff:
  "set_edge_by t r e = Inr t' \<longleftrightarrow>
     edge_ok t r \<and> t' = t\<lparr>edge_allocator := (edge_allocator t)[nat r := e]\<rparr>"
  by (auto simp: set_edge_by_def edge_ok_def)

lemma set_node_by_Inr_iff:
  "set_node_by t r n = Inr t' \<longleftrightarrow>
     node_ok t r \<and> t' = t\<lparr>node_allocator := (node_allocator t)[nat r := n]\<rparr>"
  by (auto simp: set_node_by_def node_ok_def)

lemma child_at_Inr_iff: "child_at n i = Inr e \<longleftrightarrow> slot_ok n i \<and> e = edges_to_childs n ! nat i"
  by (auto simp: child_at_def slot_ok_def)

lemma set_child_at_Inr_iff:
  "set_child_at n i r = Inr n' \<longleftrightarrow>
     slot_ok n i \<and> n' = n\<lparr>edges_to_childs := (edges_to_childs n)[nat i := r]\<rparr>"
  by (auto simp: set_child_at_def slot_ok_def)

lemma char_at_Inr_iff: "char_at t i = Inr c \<longleftrightarrow> chr_ok t i \<and> c = chr t i"
  by (auto simp: char_at_def chr_ok_def chr_def)

lemmas Inr_iffs = bindE_Inr_iff assert_Inr_iff get_edge_by_Inr_iff get_node_by_Inr_iff
  set_edge_by_Inr_iff set_node_by_Inr_iff child_at_Inr_iff set_child_at_Inr_iff char_at_Inr_iff
  alphabet_index_of_Inr_iff





subsection \<open>The tree after \<^verbatim>\<open>add_node_in\<close>\<close>

definition split_tree :: "char list \<Rightarrow> SuffixTree \<Rightarrow> int \<Rightarrow> int \<Rightarrow> SuffixTree" where
  "split_tree A t e k =
     t\<lparr>node_allocator := node_allocator t @
          [\<lparr>suffix_connection = - 1,
            edges_to_childs = (replicate (length A) (- 1))
               [nat (char_to_index A (chr t (start_position (ed t e) + k)))
                  := int (length (edge_allocator t))]\<rparr>],
        edge_allocator := (edge_allocator t @
          [\<lparr>start_position = start_position (ed t e) + k,
            length_edge = length_edge (ed t e) - k,
            next_node_addr = next_node_addr (ed t e)\<rparr>])
          [nat e := (ed t e)\<lparr>length_edge := k,
                               next_node_addr := int (length (node_allocator t))\<rparr>]\<rparr>"


subsection \<open>The tree after \<^verbatim>\<open>create_new_edge_to_leaf_from_node\<close>\<close>

definition leaf_tree :: "char list \<Rightarrow> SuffixTree \<Rightarrow> int \<Rightarrow> int \<Rightarrow> int \<Rightarrow> SuffixTree" where
  "leaf_tree A t x pos leaf =
     t\<lparr>node_allocator := (node_allocator t)
          [nat x := (nd t x)\<lparr>edges_to_childs := (edges_to_childs (nd t x))
               [nat (char_to_index A (chr t pos)) := int (length (edge_allocator t))]\<rparr>],
        edge_allocator := edge_allocator t @
          [\<lparr>start_position = pos,
            length_edge = int (length (expanded_string t)) - pos,
            next_node_addr = leaf\<rparr>]\<rparr>"

lemma create_new_edge_to_leaf_from_node_Inr_iff:
  "create_new_edge_to_leaf_from_node A (t, lc) pos x = Inr (t', lc') \<longleftrightarrow>
     - 2147483648 \<le> lc - 1 \<and>
     node_ok t x \<and> chr_ok t pos \<and> ascii (chr t pos) \<and>
     slot_ok (nd t x) (char_to_index A (chr t pos)) \<and>
     kid t x (char_to_index A (chr t pos)) = - 1 \<and>
     lc' = lc - 1 \<and> t' = leaf_tree A t x pos (lc - 1)"
  by (auto simp: create_new_edge_to_leaf_from_node_def allocate_edge_def Let_def Inr_iffs
      leaf_tree_def node_ok_def slot_ok_def kid_def nd_def length_to_end_from_def no_connection_def
      edge_ok_def)

subsection \<open>The tree after a suffix connection is set\<close>

definition link_tree :: "SuffixTree \<Rightarrow> int \<Rightarrow> int \<Rightarrow> SuffixTree" where
  "link_tree t a b =
     t\<lparr>node_allocator := (node_allocator t)[nat a := (nd t a)\<lparr>suffix_connection := b\<rparr>]\<rparr>"


subsection \<open>Field views\<close>

abbreviation St :: "SuffixTree \<Rightarrow> int \<Rightarrow> int" where "St t e \<equiv> start_position (ed t e)"
abbreviation Ln :: "SuffixTree \<Rightarrow> int \<Rightarrow> int" where "Ln t e \<equiv> length_edge (ed t e)"
abbreviation Nx :: "SuffixTree \<Rightarrow> int \<Rightarrow> int" where "Nx t e \<equiv> next_node_addr (ed t e)"
abbreviation Lk :: "SuffixTree \<Rightarrow> int \<Rightarrow> int" where "Lk t u \<equiv> suffix_connection (nd t u)"
abbreviation nlen :: "SuffixTree \<Rightarrow> int" where "nlen t \<equiv> int (length (node_allocator t))"
abbreviation elen :: "SuffixTree \<Rightarrow> int" where "elen t \<equiv> int (length (edge_allocator t))"
abbreviation klen :: "SuffixTree \<Rightarrow> int \<Rightarrow> int" where "klen t u \<equiv> int (length (edges_to_childs (nd t u)))"
abbreviation cidx :: "char list \<Rightarrow> char \<Rightarrow> int" where "cidx A c \<equiv> char_to_index A c"

lemma node_ok_iff: "node_ok t u \<longleftrightarrow> 0 \<le> u \<and> u < nlen t"
  by (simp add: node_ok_def)

lemma edge_ok_iff: "edge_ok t e \<longleftrightarrow> 0 \<le> e \<and> e < elen t"
  by (simp add: edge_ok_def)

lemma slot_ok_iff: "slot_ok (nd t u) i \<longleftrightarrow> 0 \<le> i \<and> i < klen t u"
  by (simp add: slot_ok_def)

lemma nth_update_field:
  "(\<And>y. f (g y) = f y) \<Longrightarrow> f (xs[i := g (xs ! i)] ! j) = f (xs ! j)"
proof (cases "i < length xs")
  case True
  assume "\<And>y. f (g y) = f y"
  with True show ?thesis by (cases "i = j") simp_all
next
  case False
  then show ?thesis by (simp add: list_update_beyond)
qed

subsection \<open>Views of \<open>split_tree\<close>\<close>

lemma split_tree_string [simp]:
  "expanded_string (split_tree A t e k) = expanded_string t"
  "root_addr (split_tree A t e k) = root_addr t"
  "chr (split_tree A t e k) i = chr t i"
  "chr_ok (split_tree A t e k) i = chr_ok t i"
  by (simp_all add: split_tree_def chr_def chr_ok_def)

lemma split_tree_len [simp]:
  "nlen (split_tree A t e k) = nlen t + 1"
  "elen (split_tree A t e k) = elen t + 1"
  by (simp_all add: split_tree_def)









subsection \<open>Views of \<open>leaf_tree\<close>\<close>

lemma leaf_tree_string [simp]:
  "expanded_string (leaf_tree A t x pos leaf) = expanded_string t"
  "root_addr (leaf_tree A t x pos leaf) = root_addr t"
  "chr (leaf_tree A t x pos leaf) i = chr t i"
  "chr_ok (leaf_tree A t x pos leaf) i = chr_ok t i"
  by (simp_all add: leaf_tree_def chr_def chr_ok_def)

lemma leaf_tree_len [simp]:
  "nlen (leaf_tree A t x pos leaf) = nlen t"
  "elen (leaf_tree A t x pos leaf) = elen t + 1"
  by (simp_all add: leaf_tree_def)

lemma leaf_tree_Lk [simp]:
  "Lk (leaf_tree A t x pos leaf) u = Lk t u"
  by (simp add: leaf_tree_def nd_def nth_update_field)

lemma leaf_tree_klen [simp]:
  "klen (leaf_tree A t x pos leaf) u = klen t u"
proof -
  have "length (edges_to_childs ((node_allocator t)[nat x := (\<lambda>n. n\<lparr>edges_to_childs :=
      (edges_to_childs n)[nat (cidx A (chr t pos)) := elen t]\<rparr>) (node_allocator t ! nat x)] ! nat u))
    = length (edges_to_childs (node_allocator t ! nat u))"
    by (rule nth_update_field[where f="\<lambda>n. length (edges_to_childs n)"]) simp
  then show ?thesis by (simp add: leaf_tree_def nd_def)
qed




subsection \<open>Views of \<open>link_tree\<close>\<close>

lemma link_tree_simps [simp]:
  "expanded_string (link_tree t a b) = expanded_string t"
  "root_addr (link_tree t a b) = root_addr t"
  "chr (link_tree t a b) i = chr t i"
  "chr_ok (link_tree t a b) i = chr_ok t i"
  "nlen (link_tree t a b) = nlen t"
  "edge_allocator (link_tree t a b) = edge_allocator t"
  "ed (link_tree t a b) e = ed t e"
  "edge_ok (link_tree t a b) e = edge_ok t e"
  "node_ok (link_tree t a b) u = node_ok t u"
  by (simp_all add: link_tree_def chr_def chr_ok_def ed_def edge_ok_def node_ok_def)

lemma link_tree_kids [simp]:
  "edges_to_childs (nd (link_tree t a b) u) = edges_to_childs (nd t u)"
  by (simp add: link_tree_def nd_def nth_update_field)

lemma link_tree_kid [simp]:
  "kid (link_tree t a b) u i = kid t u i"
  by (simp add: kid_def)


subsection \<open>Successful runs of the reading operations\<close>



definition next_edge :: "char list \<Rightarrow> SuffixTree \<Rightarrow> char \<Rightarrow> InnerPosition \<Rightarrow> int" where
  "next_edge A t ch it =
     (if position it = 0 then kid t (node_addr it) (cidx A ch) else edge_addr it)"

definition advance :: "SuffixTree \<Rightarrow> int \<Rightarrow> InnerPosition \<Rightarrow> InnerPosition" where
  "advance t e it =
     (if position it + 1 = Ln t e
      then \<lparr>node_addr = Nx t e, edge_addr = - 1, position = 0\<rparr>
      else \<lparr>node_addr = node_addr it, edge_addr = e, position = position it + 1\<rparr>)"




lemma Some_Inr_iffs:
  "Some (x::error + 'a) = Some (Inr y) \<longleftrightarrow> x = Inr y"
  by simp






lemma go_using_suffix_connection_abort:
  "\<not> edge_ok t (edge_addr it) \<Longrightarrow> start_position (out t (edge_addr it)) < 0 \<Longrightarrow>
   go_using_suffix_connection out A t it = Some (Inl (AssertionFailed 306))"
  by (auto simp: go_using_suffix_connection_def Let_def get_edge_by_def edge_ok_def assert_def
      bindO_def)


section \<open>Slices of the expanded string\<close>

definition sub :: "string \<Rightarrow> int \<Rightarrow> int \<Rightarrow> string" where
  "sub s i j = take (nat (j - i)) (drop (nat i) s)"

lemma sub_empty [simp]: "j \<le> i \<Longrightarrow> sub s i j = []"
  by (simp add: sub_def)

lemma length_sub: "0 \<le> i \<Longrightarrow> j \<le> int (length s) \<Longrightarrow> length (sub s i j) = nat (j - i)"
  by (auto simp: sub_def)

lemma sub_append:
  "0 \<le> i \<Longrightarrow> i \<le> j \<Longrightarrow> j \<le> k \<Longrightarrow> sub s i j @ sub s j k = sub s i k"
proof -
  assume a: "0 \<le> i" "i \<le> j" "j \<le> k"
  have "nat j = nat i + nat (j - i)" using a by simp
  then have d: "drop (nat j) s = drop (nat (j - i)) (drop (nat i) s)" by (simp add: add.commute)
  have "nat (k - i) = nat (j - i) + nat (k - j)" using a by simp
  then show ?thesis
    by (simp add: sub_def d take_add)
qed

lemma nth_sub:
  "0 \<le> i \<Longrightarrow> j \<le> int (length s) \<Longrightarrow> m < nat (j - i) \<Longrightarrow> sub s i j ! m = s ! (nat i + m)"
  by (simp add: sub_def)


lemma sub_Cons:
  "0 \<le> i \<Longrightarrow> i < j \<Longrightarrow> j \<le> int (length s) \<Longrightarrow> sub s i j = s ! nat i # sub s (i + 1) j"
proof -
  assume a: "0 \<le> i" "i < j" "j \<le> int (length s)"
  have "sub s i (i + 1) = [s ! nat i]"
    using a by (simp add: sub_def hd_drop_conv_nth take_Suc)
  with sub_append[of i "i + 1" j s] a show ?thesis by simp
qed


lemma sub_eq_iff:
  assumes "0 \<le> i" "0 \<le> j" "0 \<le> n" "i + n \<le> int (length s)" "j + n \<le> int (length s)"
  shows "sub s i (i + n) = sub s j (j + n) \<longleftrightarrow> (\<forall>m. 0 \<le> m \<and> m < n \<longrightarrow> s ! nat (i + m) = s ! nat (j + m))"
proof
  assume e: "sub s i (i + n) = sub s j (j + n)"
  show "\<forall>m. 0 \<le> m \<and> m < n \<longrightarrow> s ! nat (i + m) = s ! nat (j + m)"
  proof (intro allI impI)
    fix m assume m: "0 \<le> m \<and> m < n"
    have "sub s i (i + n) ! nat m = s ! (nat i + nat m)"
      using assms m by (intro nth_sub) auto
    moreover have "sub s j (j + n) ! nat m = s ! (nat j + nat m)"
      using assms m by (intro nth_sub) auto
    ultimately show "s ! nat (i + m) = s ! nat (j + m)"
      using e assms m by (simp add: nat_add_distrib)
  qed
next
  assume h: "\<forall>m. 0 \<le> m \<and> m < n \<longrightarrow> s ! nat (i + m) = s ! nat (j + m)"
  show "sub s i (i + n) = sub s j (j + n)"
  proof (rule nth_equalityI)
    show "length (sub s i (i + n)) = length (sub s j (j + n))"
      using assms by (simp add: length_sub)
  next
    fix m assume "m < length (sub s i (i + n))"
    then have m: "m < nat n" using assms by (simp add: length_sub)
    have "sub s i (i + n) ! m = s ! (nat i + m)" using assms m by (intro nth_sub) auto
    moreover have "sub s j (j + n) ! m = s ! (nat j + m)" using assms m by (intro nth_sub) auto
    moreover have "s ! nat (i + int m) = s ! nat (j + int m)" using h m by simp
    ultimately show "sub s i (i + n) ! m = sub s j (j + n) ! m"
      using assms by (simp add: nat_add_distrib)
  qed
qed

lemma take_sub:
  "0 \<le> i \<Longrightarrow> 0 \<le> m \<Longrightarrow> i + m \<le> j \<Longrightarrow> take (nat m) (sub s i j) = sub s i (i + m)"
  by (simp add: sub_def min_def)


section \<open>Reading a word along the edge labels\<close>

abbreviation slen :: "SuffixTree \<Rightarrow> int" where "slen t \<equiv> int (length (expanded_string t))"

definition at_node :: "int \<Rightarrow> InnerPosition" where
  "at_node u = \<lparr>node_addr = u, edge_addr = - 1, position = 0\<rparr>"

text \<open>One character is read from a position as \<^verbatim>\<open>go_over_one_letter_next\<close> and the loop
  of \<^verbatim>\<open>index_of\<close> do: in a node the edge is chosen by the character, the character
  is compared with the label, and the end of the edge leads to the next node.\<close>

definition step :: "char list \<Rightarrow> SuffixTree \<Rightarrow> InnerPosition \<Rightarrow> char \<Rightarrow> InnerPosition option" where
  "step A t it c =
     (let e = next_edge A t c it in
      if (position it = 0 \<longrightarrow> node_ok t (node_addr it) \<and> slot_ok (nd t (node_addr it)) (cidx A c)
            \<and> e \<noteq> - 1)
         \<and> edge_ok t e \<and> 0 \<le> St t e + position it \<and> St t e + position it < slen t
         \<and> chr t (St t e + position it) = c
      then Some (advance t e it) else None)"

fun run :: "char list \<Rightarrow> SuffixTree \<Rightarrow> InnerPosition \<Rightarrow> string \<Rightarrow> InnerPosition option" where
  "run A t it [] = Some it"
| "run A t it (c # w) = (case step A t it c of None \<Rightarrow> None | Some it' \<Rightarrow> run A t it' w)"

lemma run_append:
  "run A t it (w1 @ w2) = (case run A t it w1 of None \<Rightarrow> None | Some it' \<Rightarrow> run A t it' w2)"
  by (induction w1 arbitrary: it) (auto split: option.splits)

lemma run_append_Some:
  "run A t it w1 = Some it' \<Longrightarrow> run A t it (w1 @ w2) = run A t it' w2"
  by (simp add: run_append)


lemma chr_nth: "0 \<le> i \<Longrightarrow> i < slen t \<Longrightarrow> chr t i = expanded_string t ! nat i"
  by (simp add: chr_def)


lemma sub_chr_Cons:
  "0 \<le> i \<Longrightarrow> i < j \<Longrightarrow> j \<le> slen t \<Longrightarrow>
   sub (expanded_string t) i j = chr t i # sub (expanded_string t) (i + 1) j"
  by (simp add: sub_Cons chr_nth)

text \<open>Reading along one edge.\<close>

lemma step_on_edge:
  assumes "edge_ok t e" "0 < p" "p < Ln t e" "0 \<le> St t e" "St t e + Ln t e \<le> slen t"
  shows "step A t \<lparr>node_addr = u, edge_addr = e, position = p\<rparr> (chr t (St t e + p))
      = Some (if p + 1 = Ln t e then at_node (Nx t e)
              else \<lparr>node_addr = u, edge_addr = e, position = p + 1\<rparr>)"
  using assms by (simp add: step_def next_edge_def advance_def at_node_def)

lemma step_from_node:
  assumes "node_ok t u" "slot_ok (nd t u) (cidx A (chr t (St t e)))"
    "kid t u (cidx A (chr t (St t e))) = e" "e \<noteq> - 1"
    "edge_ok t e" "1 \<le> Ln t e" "0 \<le> St t e" "St t e + Ln t e \<le> slen t"
  shows "step A t (at_node u) (chr t (St t e))
      = Some (if 1 = Ln t e then at_node (Nx t e)
              else \<lparr>node_addr = u, edge_addr = e, position = 1\<rparr>)"
  using assms by (simp add: step_def next_edge_def advance_def at_node_def)

lemma run_on_edge:
  assumes "edge_ok t e" "0 \<le> St t e" "St t e + Ln t e \<le> slen t"
  shows "0 < p \<Longrightarrow> p \<le> m \<Longrightarrow> p < Ln t e \<Longrightarrow> m \<le> Ln t e \<Longrightarrow> n = nat (m - p) \<Longrightarrow>
     run A t \<lparr>node_addr = u, edge_addr = e, position = p\<rparr>
        (sub (expanded_string t) (St t e + p) (St t e + m))
      = Some (if m = Ln t e then at_node (Nx t e)
              else \<lparr>node_addr = u, edge_addr = e, position = m\<rparr>)"
proof (induction n arbitrary: p)
  case 0
  then have "m = p" by simp
  with 0 show ?case by simp
next
  case (Suc n)
  then have lt: "p < m" by simp
  have c: "sub (expanded_string t) (St t e + p) (St t e + m)
      = chr t (St t e + p) # sub (expanded_string t) (St t e + (p + 1)) (St t e + m)"
    using assms Suc.prems lt by (subst sub_chr_Cons) (simp_all add: add.assoc)
  have s: "step A t \<lparr>node_addr = u, edge_addr = e, position = p\<rparr> (chr t (St t e + p))
      = Some (if p + 1 = Ln t e then at_node (Nx t e)
              else \<lparr>node_addr = u, edge_addr = e, position = p + 1\<rparr>)"
    using assms Suc.prems by (intro step_on_edge) simp_all
  show ?case
  proof (cases "p + 1 = Ln t e")
    case True
    with Suc.prems lt have "m = Ln t e" by simp
    with True s c show ?thesis by simp
  next
    case False
    with Suc.prems have "p + 1 < Ln t e" by simp
    with Suc.IH[of "p + 1"] Suc.prems lt False s c show ?thesis by simp
  qed
qed

lemma run_edge_from_node:
  assumes "node_ok t u" "slot_ok (nd t u) (cidx A (chr t (St t e)))"
    "kid t u (cidx A (chr t (St t e))) = e" "e \<noteq> - 1"
    "edge_ok t e" "0 \<le> St t e" "St t e + Ln t e \<le> slen t" "0 < m" "m \<le> Ln t e"
  shows "run A t (at_node u) (sub (expanded_string t) (St t e) (St t e + m))
      = Some (if m = Ln t e then at_node (Nx t e)
              else \<lparr>node_addr = u, edge_addr = e, position = m\<rparr>)"
proof -
  have c: "sub (expanded_string t) (St t e) (St t e + m)
      = chr t (St t e) # sub (expanded_string t) (St t e + 1) (St t e + m)"
    using assms by (subst sub_chr_Cons) simp_all
  have s: "step A t (at_node u) (chr t (St t e))
      = Some (if 1 = Ln t e then at_node (Nx t e)
              else \<lparr>node_addr = u, edge_addr = e, position = 1\<rparr>)"
    using assms by (intro step_from_node) simp_all
  show ?thesis
  proof (cases "1 = Ln t e")
    case True
    with assms have "m = 1" by simp
    with True s c show ?thesis by simp
  next
    case False
    with assms have "1 < Ln t e" by simp
    with run_on_edge[OF assms(5,6,7), of 1 m "nat (m - 1)" A u] assms s c False show ?thesis
      by simp
  qed
qed

section \<open>Invariants of the construction\<close>

text \<open>The expanded string is over the alphabet, its bytes are below \<open>0x80\<close>, and it
  carries the terminal symbol at its end and nowhere else.\<close>

definition valid_string :: "char list \<Rightarrow> string \<Rightarrow> bool" where
  "valid_string A s \<longleftrightarrow> s \<noteq> [] \<and> set s \<subseteq> set A \<and> (\<forall>c \<in> set s. ascii c) \<and>
     (\<forall>i < length s. s ! i = terminal_symbol \<longleftrightarrow> Suc i = length s)"

text \<open>Node \<open>0\<close> is the root and node \<open>1\<close> the dummy; the other nodes were created by
  \<^verbatim>\<open>add_node_in\<close>.\<close>

definition real_node :: "SuffixTree \<Rightarrow> int \<Rightarrow> bool" where
  "real_node t u \<longleftrightarrow> u = 0 \<or> (2 \<le> u \<and> u < nlen t)"

definition owns :: "char list \<Rightarrow> SuffixTree \<Rightarrow> int \<Rightarrow> int \<Rightarrow> int \<Rightarrow> bool" where
  "owns A t u i e \<longleftrightarrow> real_node t u \<and> 0 \<le> i \<and> i < int (length A) \<and> kid t u i = e \<and> e \<noteq> - 1"

definition inv_struct :: "char list \<Rightarrow> SuffixTree \<Rightarrow> bool" where
  "inv_struct A t \<longleftrightarrow>
     root_addr t = 0 \<and> 2 \<le> nlen t \<and> Lk t 0 = 1 \<and>
     (\<forall>u. node_ok t u \<longrightarrow> klen t u = int (length A)) \<and>
     int (length A) \<le> elen t \<and>
     (\<forall>i. 0 \<le> i \<and> i < int (length A) \<longrightarrow>
          kid t 1 i = i \<and> St t i = - 1 \<and> Ln t i = 1 \<and> Nx t i = 0) \<and>
     (\<forall>u i e. owns A t u i e \<longrightarrow> int (length A) \<le> e \<and> e < elen t) \<and>
     (\<forall>u i u' i' e. owns A t u i e \<longrightarrow> owns A t u' i' e \<longrightarrow> u = u' \<and> i = i')"

text \<open>\<open>str u\<close> is the word that leads from the root to the node \<open>u\<close>. An edge below \<open>u\<close>
  continues an occurrence of \<open>str u\<close> in the expanded string; an edge to an inner node lies
  in the part of the string already read, an edge to a leaf ends with the string and is
  the leaf of one of the first \<open>L\<close> suffixes.\<close>

definition edge_inv ::
  "(int \<Rightarrow> string) \<Rightarrow> SuffixTree \<Rightarrow> int \<Rightarrow> int \<Rightarrow> int \<Rightarrow> int \<Rightarrow> bool" where
  "edge_inv str t pos L u e \<longleftrightarrow>
     0 \<le> St t e \<and> 1 \<le> Ln t e \<and> St t e + Ln t e \<le> slen t \<and>
     int (length (str u)) \<le> St t e \<and>
     sub (expanded_string t) (St t e - int (length (str u))) (St t e) = str u \<and>
     (0 \<le> Nx t e \<longrightarrow> 2 \<le> Nx t e \<and> Nx t e < nlen t \<and>
         str (Nx t e) = str u @ sub (expanded_string t) (St t e) (St t e + Ln t e) \<and>
         St t e + Ln t e \<le> pos) \<and>
     (Nx t e < 0 \<longrightarrow> St t e + Ln t e = slen t \<and> St t e - int (length (str u)) < L)"

definition inv_edges ::
  "char list \<Rightarrow> (int \<Rightarrow> string) \<Rightarrow> SuffixTree \<Rightarrow> int \<Rightarrow> int \<Rightarrow> bool" where
  "inv_edges A str t pos L \<longleftrightarrow>
     str 0 = [] \<and> (\<forall>u. 2 \<le> u \<and> u < nlen t \<longrightarrow> str u \<noteq> []) \<and>
     (\<forall>u i e. owns A t u i e \<longrightarrow> cidx A (chr t (St t e)) = i \<and> edge_inv str t pos L u e)"


definition inv_reach :: "char list \<Rightarrow> (int \<Rightarrow> string) \<Rightarrow> SuffixTree \<Rightarrow> bool" where
  "inv_reach A str t \<longleftrightarrow> (\<forall>u. real_node t u \<longrightarrow> run A t (at_node 0) (str u) = Some (at_node u))"



text \<open>The position of the iterator: the word read from the root to it is the suffix
  \<open>sub s L pos\<close> of the part read so far.\<close>

definition istr :: "(int \<Rightarrow> string) \<Rightarrow> SuffixTree \<Rightarrow> InnerPosition \<Rightarrow> string" where
  "istr str t it = str (node_addr it)
     @ sub (expanded_string t) (St t (edge_addr it)) (St t (edge_addr it) + position it)"

definition locus_ok :: "char list \<Rightarrow> SuffixTree \<Rightarrow> InnerPosition \<Rightarrow> bool" where
  "locus_ok A t it \<longleftrightarrow> real_node t (node_addr it) \<and> 0 \<le> position it \<and>
     (position it = 0 \<longrightarrow> edge_addr it = - 1) \<and>
     (position it \<noteq> 0 \<longrightarrow> (\<exists>i. owns A t (node_addr it) i (edge_addr it))
          \<and> position it < Ln t (edge_addr it))"

definition it_ok ::
  "char list \<Rightarrow> (int \<Rightarrow> string) \<Rightarrow> SuffixTree \<Rightarrow> InnerPosition \<Rightarrow> int \<Rightarrow> int \<Rightarrow> bool" where
  "it_ok A str t it pos L \<longleftrightarrow>
     (it = at_node 1 \<and> L = pos + 1) \<or>
     (locus_ok A t it \<and> istr str t it = sub (expanded_string t) L pos
        \<and> int (length (str (node_addr it))) + position it = pos - L)"

subsection \<open>Consequences of the invariants\<close>


lemma valid_string_pos: "valid_string A (expanded_string t) \<Longrightarrow> 0 < slen t"
  by (simp add: valid_string_def)


lemma inv_structD:
  assumes "inv_struct A t"
  shows "root_addr t = 0" "2 \<le> nlen t" "Lk t 0 = 1"
    "\<forall>u. node_ok t u \<longrightarrow> klen t u = int (length A)"
    "int (length A) \<le> elen t"
    "\<forall>i. 0 \<le> i \<and> i < int (length A) \<longrightarrow>
          kid t 1 i = i \<and> St t i = - 1 \<and> Ln t i = 1 \<and> Nx t i = 0"
    "\<forall>u i e. owns A t u i e \<longrightarrow> int (length A) \<le> e \<and> e < elen t"
    "\<forall>u i u' i' e. owns A t u i e \<longrightarrow> owns A t u' i' e \<longrightarrow> u = u' \<and> i = i'"
  using assms unfolding inv_struct_def by simp_all

lemma real_node_ok: "inv_struct A t \<Longrightarrow> real_node t u \<Longrightarrow> node_ok t u"
  using inv_structD(2)[of A t] by (auto simp: real_node_def node_ok_def)



lemma owns_slot:
  assumes "inv_struct A t" "owns A t u i e"
  shows "node_ok t u \<and> slot_ok (nd t u) i"
proof -
  have n: "node_ok t u" using assms by (simp add: owns_def real_node_ok)
  with inv_structD(4)[OF assms(1)] have "klen t u = int (length A)" by simp
  with n assms(2) show ?thesis by (simp add: owns_def slot_ok_def)
qed

lemma owns_edge_ok:
  "inv_struct A t \<Longrightarrow> owns A t u i e \<Longrightarrow> edge_ok t e \<and> int (length A) \<le> e"
proof -
  assume a: "inv_struct A t" "owns A t u i e"
  then have "int (length A) \<le> e \<and> e < elen t" using inv_structD(7)[of A t] by blast
  then show ?thesis by (simp add: edge_ok_def)
qed


lemma inv_edgesD:
  assumes "inv_edges A str t pos L"
  shows "str 0 = []" "\<forall>u. 2 \<le> u \<and> u < nlen t \<longrightarrow> str u \<noteq> []"
    "\<forall>u i e. owns A t u i e \<longrightarrow> cidx A (chr t (St t e)) = i \<and> edge_inv str t pos L u e"
  using assms unfolding inv_edges_def by simp_all

lemma owns_edge_inv:
  "inv_edges A str t pos L \<Longrightarrow> owns A t u i e \<Longrightarrow> edge_inv str t pos L u e"
  using inv_edgesD(3)[of A str t pos L] by blast

lemma owns_cidx:
  "inv_edges A str t pos L \<Longrightarrow> owns A t u i e \<Longrightarrow> cidx A (chr t (St t e)) = i"
  using inv_edgesD(3)[of A str t pos L] by blast






subsection \<open>Reading backwards: what a successful reading tells about the edges\<close>



subsection \<open>The skip/count loop follows the reading\<close>


section \<open>A new leaf keeps the invariants\<close>

lemma leaf_tree_node_ok [simp]: "node_ok (leaf_tree A t x pos leaf) u = node_ok t u"
  by (simp add: node_ok_def)

lemma leaf_tree_real_node [simp]: "real_node (leaf_tree A t x pos leaf) u = real_node t u"
  by (simp add: real_node_def)


lemma leaf_tree_slot_ok [simp]:
  "slot_ok (nd (leaf_tree A t x pos leaf) u) i = slot_ok (nd t u) i"
  by (simp add: slot_ok_def)












section \<open>Splitting an edge keeps the invariants\<close>




text \<open>The position in the split tree that corresponds to a position of the tree before.\<close>

definition split_pos :: "SuffixTree \<Rightarrow> int \<Rightarrow> int \<Rightarrow> InnerPosition \<Rightarrow> InnerPosition" where
  "split_pos t e k it =
     (if position it \<noteq> 0 \<and> edge_addr it = e \<and> k \<le> position it
      then (if position it = k then at_node (nlen t)
            else \<lparr>node_addr = nlen t, edge_addr = elen t, position = position it - k\<rparr>)
      else it)"

lemma split_pos_node [simp]: "split_pos t e k (at_node u) = at_node u"
  by (simp add: split_pos_def at_node_def)













section \<open>Setting a suffix link keeps the invariants\<close>

lemma link_tree_real_node [simp]: "real_node (link_tree t a b) u = real_node t u"
  by (simp add: real_node_def)

lemma link_tree_owns [simp]: "owns A (link_tree t a b) u i e = owns A t u i e"
  by (simp add: owns_def)

lemma link_tree_slot_ok [simp]: "slot_ok (nd (link_tree t a b) u) i = slot_ok (nd t u) i"
  by (simp add: slot_ok_iff)

lemma link_tree_advance [simp]: "advance (link_tree t a b) e it = advance t e it"
  by (simp add: advance_def)

lemma link_tree_next_edge [simp]: "next_edge A (link_tree t a b) c it = next_edge A t c it"
  by (simp add: next_edge_def)

lemma step_link [simp]: "step A (link_tree t a b) it c = step A t it c"
  by (simp add: step_def Let_def)

lemma run_link [simp]: "run A (link_tree t a b) it w = run A t it w"
  by (induction w arbitrary: it) (auto split: option.splits)

lemma link_tree_edge_inv [simp]: "edge_inv str (link_tree t a b) pos L u e = edge_inv str t pos L u e"
  by (simp add: edge_inv_def)

lemma link_tree_locus_ok [simp]: "locus_ok A (link_tree t a b) it = locus_ok A t it"
  by (simp add: locus_ok_def)

lemma link_tree_istr [simp]: "istr str (link_tree t a b) it = istr str t it"
  by (simp add: istr_def)

lemma link_tree_it_ok [simp]: "it_ok A str (link_tree t a b) it pos L = it_ok A str t it pos L"
  by (simp add: it_ok_def)




section \<open>Following a suffix link\<close>

lemma istr_at_node [simp]: "istr str t (at_node u) = str u"
  by (simp add: istr_def at_node_def)

lemma locus_ok_at_node [simp]: "locus_ok A t (at_node u) = real_node t u"
  by (simp add: locus_ok_def at_node_def)


lemma run_istr:
  assumes st: "inv_struct A t" and ed: "inv_edges A str t pos L" and re: "inv_reach A str t"
    and lo: "locus_ok A t it"
  shows "run A t (at_node 0) (istr str t it) = Some it"
proof -
  let ?u = "node_addr it" and ?e = "edge_addr it" and ?p = "position it"
  from lo have u: "real_node t ?u" by (simp add: locus_ok_def)
  with re have a: "run A t (at_node 0) (str ?u) = Some (at_node ?u)" by (simp add: inv_reach_def)
  show ?thesis
  proof (cases "?p = 0")
    case True
    with lo have "it = at_node ?u" by (simp add: locus_ok_def at_node_def)
    with a True show ?thesis by (simp add: istr_def)
  next
    case False
    with lo obtain i where o: "owns A t ?u i ?e" and p: "0 < ?p" "?p < Ln t ?e"
      by (auto simp: locus_ok_def)
    from owns_edge_inv[OF ed o] have f: "0 \<le> St t ?e" "St t ?e + Ln t ?e \<le> slen t"
      by (simp_all add: edge_inv_def)
    from owns_cidx[OF ed o] have ci: "cidx A (chr t (St t ?e)) = i" .
    have "run A t (at_node ?u) (sub (expanded_string t) (St t ?e) (St t ?e + ?p))
        = Some (if ?p = Ln t ?e then at_node (Nx t ?e)
                else \<lparr>node_addr = ?u, edge_addr = ?e, position = ?p\<rparr>)"
      using owns_slot[OF st o] owns_edge_ok[OF st o] o f p ci
      by (intro run_edge_from_node) (simp_all add: owns_def)
    with p have "run A t (at_node ?u) (sub (expanded_string t) (St t ?e) (St t ?e + ?p)) = Some it"
      by simp
    with run_append_Some[OF a] show ?thesis by (simp add: istr_def)
  qed
qed



lemma at_node_sel [simp]:
  "node_addr (at_node u) = u" "edge_addr (at_node u) = - 1" "position (at_node u) = 0"
  by (simp_all add: at_node_def)



section \<open>The leaves\<close>

text \<open>The edges to leaves carry the identifiers \<open>lc0 - L, \<dots>, lc0 - 1\<close>, each once, and end
  with the expanded string. \<open>lc0\<close> is the value of the counter when the construction began.\<close>

definition inv_leaves :: "SuffixTree \<Rightarrow> int \<Rightarrow> int \<Rightarrow> bool" where
  "inv_leaves t lc0 L \<longleftrightarrow>
     (\<forall>e. edge_ok t e \<and> Nx t e < 0 \<longrightarrow>
          lc0 - L \<le> Nx t e \<and> Nx t e < lc0 \<and> St t e + Ln t e = slen t) \<and>
     (\<forall>e e'. edge_ok t e \<and> edge_ok t e' \<and> Nx t e < 0 \<and> Nx t e = Nx t e' \<longrightarrow> e = e') \<and>
     (\<forall>j. lc0 - L \<le> j \<and> j < lc0 \<longrightarrow> (\<exists>e. edge_ok t e \<and> Nx t e = j))"

lemma inv_leavesD:
  assumes "inv_leaves t lc0 L"
  shows "edge_ok t e \<Longrightarrow> Nx t e < 0 \<Longrightarrow> lc0 - L \<le> Nx t e \<and> Nx t e < lc0 \<and> St t e + Ln t e = slen t"
    "edge_ok t e \<Longrightarrow> edge_ok t e' \<Longrightarrow> Nx t e < 0 \<Longrightarrow> Nx t e = Nx t e' \<Longrightarrow> e = e'"
    "lc0 - L \<le> j \<Longrightarrow> j < lc0 \<Longrightarrow> \<exists>e. edge_ok t e \<and> Nx t e = j"
proof -
  from assms have a: "\<forall>e. edge_ok t e \<and> Nx t e < 0 \<longrightarrow>
          lc0 - L \<le> Nx t e \<and> Nx t e < lc0 \<and> St t e + Ln t e = slen t"
    and b: "\<forall>e e'. edge_ok t e \<and> edge_ok t e' \<and> Nx t e < 0 \<and> Nx t e = Nx t e' \<longrightarrow> e = e'"
    and c: "\<forall>j. lc0 - L \<le> j \<and> j < lc0 \<longrightarrow> (\<exists>e. edge_ok t e \<and> Nx t e = j)"
    unfolding inv_leaves_def by simp_all
  show "edge_ok t e \<Longrightarrow> Nx t e < 0 \<Longrightarrow> lc0 - L \<le> Nx t e \<and> Nx t e < lc0 \<and> St t e + Ln t e = slen t"
    using a by blast
  show "edge_ok t e \<Longrightarrow> edge_ok t e' \<Longrightarrow> Nx t e < 0 \<Longrightarrow> Nx t e = Nx t e' \<Longrightarrow> e = e'"
    using b by blast
  show "lc0 - L \<le> j \<Longrightarrow> j < lc0 \<Longrightarrow> \<exists>e. edge_ok t e \<and> Nx t e = j"
    using c by blast
qed

lemma inv_leaves_link [simp]: "inv_leaves (link_tree t a b) lc0 L = inv_leaves t lc0 L"
  by (simp add: inv_leaves_def)



section \<open>The steps of the second stage\<close>

definition at_suffix ::
  "char list \<Rightarrow> (int \<Rightarrow> string) \<Rightarrow> SuffixTree \<Rightarrow> InnerPosition \<Rightarrow> int \<Rightarrow> int \<Rightarrow> bool" where
  "at_suffix A str t it pos L \<longleftrightarrow>
     locus_ok A t it \<and> istr str t it = sub (expanded_string t) L pos
       \<and> int (length (str (node_addr it))) + position it = pos - L"


lemma at_suffix_link [simp]:
  "at_suffix A str (link_tree t a b) it pos L = at_suffix A str t it pos L"
  by (simp add: at_suffix_def)





text \<open>The edge of the iterator has been cut at its position, where the node \<open>w\<close> stands now.\<close>

definition cut_ok ::
  "char list \<Rightarrow> (int \<Rightarrow> string) \<Rightarrow> SuffixTree \<Rightarrow> int \<Rightarrow> int \<Rightarrow> int \<Rightarrow> InnerPosition \<Rightarrow> bool" where
  "cut_ok A str t pos L w it \<longleftrightarrow>
     (\<exists>i. owns A t (node_addr it) i (edge_addr it)) \<and> node_addr it \<noteq> w \<and>
     2 \<le> w \<and> w < nlen t \<and> str w = sub (expanded_string t) L pos \<and>
     kid t w (cidx A (chr t pos)) = - 1 \<and>
     0 < position it \<and> Ln t (edge_addr it) = position it \<and>
     St t (edge_addr it) + position it < pos \<and>
     int (length (str (node_addr it))) + position it = pos - L \<and>
     str (node_addr it) @ sub (expanded_string t) (St t (edge_addr it))
         (St t (edge_addr it) + position it) = sub (expanded_string t) L pos \<and>
     chr t (St t (edge_addr it) + position it) \<noteq> chr t pos"

lemma cut_ok_link [simp]: "cut_ok A str (link_tree t a b) pos L w it = cut_ok A str t pos L w it"
  by (simp add: cut_ok_def)







section \<open>The third stage\<close>




section \<open>The loops of the second stage\<close>











section \<open>The loop over the positions\<close>


section \<open>The tree before the first position\<close>











section \<open>The memory in front of the edge arena\<close>

text \<open>A construction that completes has passed the assertion of line 306 at every call;
  it completes with the same tree when every read in front of the arena passes.\<close>

lemma Some_bindO_Inr_iff:
  "Some (Inr y) = bindO m f \<longleftrightarrow> (\<exists>x. m = Some (Inr x) \<and> f x = Some (Inr y))"
  by (auto simp: bindO_def split: option.splits sum.splits)









text \<open>Two memories in front of the edge arena: one that holds zeros, as a fresh heap
  does, and one that holds a negative number, as a heap does on which edges have been
  stored and released.\<close>

definition zero_outside :: outside where
  "zero_outside t r = \<lparr>start_position = 0, length_edge = 0, next_node_addr = 0\<rparr>"

definition negative_outside :: outside where
  "negative_outside t r = \<lparr>start_position = - 1, length_edge = 0, next_node_addr = 0\<rparr>"


section \<open>The finished tree\<close>



text \<open>The edges to leaves and the identifiers of the leaves, in the order of the arena.\<close>

definition leaf_edges :: "SuffixTree \<Rightarrow> Edge list" where
  "leaf_edges t = filter (\<lambda>e. is_leaf (next_node_addr e)) (edge_allocator t)"

definition leaf_ids :: "SuffixTree \<Rightarrow> int list" where
  "leaf_ids t = map next_node_addr (leaf_edges t)"

lemma distinct_map_filter_nth:
  "(\<And>i j. i < length xs \<Longrightarrow> j < length xs \<Longrightarrow> P (xs ! i) \<Longrightarrow> f (xs ! i) = f (xs ! j) \<Longrightarrow> i = j)
   \<Longrightarrow> distinct (map f (filter P xs))"
proof (induction xs)
  case Nil
  show ?case by simp
next
  case (Cons x xs)
  have ih: "distinct (map f (filter P xs))"
  proof (rule Cons.IH)
    fix i j assume "i < length xs" "j < length xs" "P (xs ! i)" "f (xs ! i) = f (xs ! j)"
    with Cons.prems[of "Suc i" "Suc j"] show "i = j" by simp
  qed
  have "f x \<notin> f ` set (filter P xs)" if px: "P x"
  proof
    assume "f x \<in> f ` set (filter P xs)"
    then obtain y where y: "y \<in> set xs" "f y = f x" by auto
    then obtain j where j: "j < length xs" "xs ! j = y" by (auto simp: in_set_conv_nth)
    with Cons.prems[of 0 "Suc j"] px y show False by simp
  qed
  with ih show ?case by simp
qed

lemma leaves_list:
  assumes il: "inv_leaves t lc0 L" and L: "0 \<le> L" and lc: "lc0 \<le> 0"
  shows "distinct (leaf_ids t)" "set (leaf_ids t) = {lc0 - L ..< lc0}"
    "int (length (leaf_edges t)) = L"
    "\<forall>e \<in> set (leaf_edges t). start_position e + length_edge e = slen t"
proof -
  let ?xs = "edge_allocator t"
  note d = inv_leavesD[OF il]
  have ix: "edge_ok t (int i)" "ed t (int i) = ?xs ! i" if "i < length ?xs" for i
    using that by (simp_all add: edge_ok_def ed_def)
  show 1: "distinct (leaf_ids t)"
    unfolding leaf_ids_def leaf_edges_def
  proof (rule distinct_map_filter_nth)
    fix i j assume a: "i < length ?xs" "j < length ?xs" "is_leaf (next_node_addr (?xs ! i))"
      "next_node_addr (?xs ! i) = next_node_addr (?xs ! j)"
    with d(2)[of "int i" "int j"] ix show "i = j" by (simp add: is_leaf_def)
  qed
  show 2: "set (leaf_ids t) = {lc0 - L ..< lc0}"
  proof (intro set_eqI iffI)
    fix x assume "x \<in> set (leaf_ids t)"
    then obtain e where "e \<in> set ?xs" "next_node_addr e < 0" "x = next_node_addr e"
      by (auto simp: leaf_ids_def leaf_edges_def is_leaf_def)
    then obtain i where "i < length ?xs" "?xs ! i = e" by (auto simp: in_set_conv_nth)
    with d(1)[of "int i"] ix \<open>next_node_addr e < 0\<close> \<open>x = next_node_addr e\<close>
    show "x \<in> {lc0 - L ..< lc0}" by simp
  next
    fix x assume x: "x \<in> {lc0 - L ..< lc0}"
    with d(3)[of x] obtain e where e: "edge_ok t e" "Nx t e = x" by auto
    have "nat e < length ?xs" using e(1) by (simp add: edge_ok_def nat_less_iff)
    then have "ed t e \<in> set ?xs" unfolding ed_def by (rule nth_mem)
    moreover have "x < 0" using x lc by simp
    ultimately have "ed t e \<in> set (leaf_edges t)" using e(2)
      by (simp add: leaf_edges_def is_leaf_def)
    then have "next_node_addr (ed t e) \<in> set (leaf_ids t)" by (simp add: leaf_ids_def)
    with e(2) show "x \<in> set (leaf_ids t)" by simp
  qed
  have "length (leaf_edges t) = length (leaf_ids t)" by (simp add: leaf_ids_def)
  also have "\<dots> = card (set (leaf_ids t))" using 1 by (simp add: distinct_card)
  also have "\<dots> = nat L" by (simp add: 2)
  finally show "int (length (leaf_edges t)) = L" using L by simp
  show "\<forall>e \<in> set (leaf_edges t). start_position e + length_edge e = slen t"
  proof
    fix e assume "e \<in> set (leaf_edges t)"
    then have "e \<in> set ?xs" "next_node_addr e < 0" by (auto simp: leaf_edges_def is_leaf_def)
    then obtain i where "i < length ?xs" "?xs ! i = e" by (auto simp: in_set_conv_nth)
    with d(1)[of "int i"] ix \<open>next_node_addr e < 0\<close>
    show "start_position e + length_edge e = slen t" by simp
  qed
qed


text \<open>The leaf counter is changed by \<^verbatim>\<open>create_new_edge_to_leaf_from_node\<close> only: a call
  lowers it by one and appends one edge, to the leaf with the new identifier, that runs
  from the current position to the end of the expanded string.\<close>

lemma created_leaf_edge:
  assumes "create_new_edge_to_leaf_from_node A (t, lc) pos x = Inr (t', lc')"
  shows "lc' = lc - 1"
    "edge_allocator t' = edge_allocator t @
       [\<lparr>start_position = pos, length_edge = slen t - pos, next_node_addr = lc - 1\<rparr>]"
  using assms by (simp_all add: create_new_edge_to_leaf_from_node_Inr_iff leaf_tree_def)

section \<open>The queries leave the tree as it is\<close>

lemma index_of_loop_method_eq:
  "index_of_loop_method A it lst p t = (index_of_loop A t it lst p, t)"
proof (induction p arbitrary: it lst)
  case Nil
  show ?case by (simp add: local_def)
next
  case (Cons ch p)
  show ?case
    by (simp add: bind_m_def fetch_def local_def bindE_def Cons.IH Let_def split: sum.splits)
qed

lemma index_of_method_eq: "index_of_method A p t = (index_of A t p, t)"
  by (simp add: index_of_method_def index_of_def bind_m_def fetch_def local_def bindE_def
      Let_def index_of_loop_method_eq split: sum.splits option.splits prod.splits)

lemma contains_method_eq: "contains_method A p t = (contains A t p, t)"
  by (simp add: contains_method_def contains_def bind_m_def index_of_method_eq local_def
      bindE_def split: sum.splits)

section \<open>The claims\<close>

text \<open>
  C8: \<^verbatim>\<open>index_of\<close> of the empty pattern returns \<open>0\<close>, and \<^verbatim>\<open>contains\<close> of the empty
  pattern returns true, on every tree.
\<close>

theorem C8_index_of_empty:
  "index_of A t [] = Inr 0 \<and> contains A t [] = Inr True"
  by (simp add: index_of_def contains_def bindE_def)

text \<open>
  C9: \<^verbatim>\<open>index_of\<close> and \<^verbatim>\<open>contains\<close> leave the tree unchanged. Run as transformers of the
  tree, statement by statement, they hand back the tree they were called on (the
  expanded string, the root reference, the node arena and the edge arena), together
  with the result of the query, whatever the pattern and whether or not the query ends
  in an error.
\<close>

theorem C9_queries_leave_tree_unchanged:
  "index_of_method A pattern t = (index_of A t pattern, t) \<and>
   contains_method A pattern t = (contains A t pattern, t)"
  by (simp add: index_of_method_eq contains_method_eq)

text \<open>
  C4: the assertion of line 594 holds for every pattern. The code does not ensure it: the
  pattern made of the terminal byte is read along the leaf edge of the last suffix and
  the descent of line 589 reaches the leaf. (The tree is built with zeros in front of
  the edge arena.)
\<close>

theorem C4_terminal_pattern_reaches_leaf:
  "main_index_of zero_outside (SuffixTreeAlphabet ''ab'') ''ab'' [CHR 0x00]
     = Some (Inl (AssertionFailed 594))"
  by code_simp

text \<open>
  C1: \<^verbatim>\<open>contains\<close> is true exactly for the substrings of the source. The code does not
  answer false for the pattern \<open>b\<close> followed by the terminal byte, which is no substring
  of the source \<open>ab\<close>: the query aborts at the assertion of line 594. (The tree is built
  with zeros in front of the edge arena.)
\<close>

theorem C1_contains_aborts_on_terminal:
  "main_contains zero_outside (SuffixTreeAlphabet ''ab'') ''ab'' [CHR ''b'', CHR 0x00]
     = Some (Inl (AssertionFailed 594))"
  by code_simp

text \<open>
  C10: the terminal byte belongs to every \<^verbatim>\<open>SuffixTreeAlphabet\<close>, the constructor checks
  only that the bytes of the expanded string are in the alphabet, and there is a source
  containing the terminal byte for which that check passes and construction completes
  (with zeros in front of the edge arena).
\<close>

theorem C10_interior_terminal_is_accepted:
  "(\<forall>letters. \<exists>i. alphabet_index_of (SuffixTreeAlphabet letters) terminal_symbol = Inr i \<and> 0 \<le> i) \<and>
   (\<exists>source. terminal_symbol \<in> set source \<and>
      is_alphabet_of (SuffixTreeAlphabet ''ab'') (source @ [terminal_symbol]) = Inr True \<and>
      is_built (build zero_outside (SuffixTreeAlphabet ''ab'') 0 source))"
proof -
  have t: "ascii terminal_symbol" by (simp add: ascii_def terminal_symbol_def)
  have 1: "\<forall>letters. \<exists>i. alphabet_index_of (SuffixTreeAlphabet letters) terminal_symbol = Inr i \<and> 0 \<le> i"
    using t by (simp add: alphabet_index_of_ok char_to_index_nonneg_iff SuffixTreeAlphabet_def)
  have a: "terminal_symbol \<in> set [CHR ''a'', CHR 0x00, CHR ''b'']"
    by (simp add: terminal_symbol_def)
  have b: "is_alphabet_of (SuffixTreeAlphabet ''ab'') ([CHR ''a'', CHR 0x00, CHR ''b''] @ [terminal_symbol])
      = Inr True"
    by code_simp
  have c: "is_built (build zero_outside (SuffixTreeAlphabet ''ab'') 0 [CHR ''a'', CHR 0x00, CHR ''b''])"
    by code_simp
  from a b c have "\<exists>source. terminal_symbol \<in> set source \<and>
      is_alphabet_of (SuffixTreeAlphabet ''ab'') (source @ [terminal_symbol]) = Inr True \<and>
      is_built (build zero_outside (SuffixTreeAlphabet ''ab'') 0 source)"
    by blast
  with 1 show ?thesis by blast
qed

text \<open>
  C7: construction runs to completion for every valid source. The code does not ensure
  it. Whenever the iterator stands in a node, \<^verbatim>\<open>go_using_suffix_connection\<close> is called
  with \<^verbatim>\<open>edge_addr == -1\<close>, and the assertion of line 306 reads the start position of
  \<^verbatim>\<open>edge_allocator[-1]\<close>, in front of the edge arena, before line 310 returns. This
  happens in every construction, first at position \<open>0\<close>. With a negative number there
  the construction of the source \<open>a\<close> aborts.
\<close>

theorem C7_construction_aborts_at_306:
  "build negative_outside (SuffixTreeAlphabet ''a'') 0 ''a'' = Some (Inl (AssertionFailed 306))"
  by code_simp





end
